theory Spec2Isabelle
  imports Complex_Main "HOL-Library.Log_Nat"
begin

section \<open>Sleep-phase pipeline: windowing, labelling, real-time estimate, metrics\<close>

text \<open>
  A shallow embedding of the windowing loops of \<^verbatim>\<open>backend/train_final.py\<close> and
  \<^verbatim>\<open>backend/lstm_model.py\<close>, of the window label of \<^verbatim>\<open>model/sleep_classifier.py\<close>,
  and of the real-time endpoint and the metric functions of \<^verbatim>\<open>backend/main.py\<close>.
  Python integers are \<open>nat\<close> or \<open>int\<close>, strings are \<open>string\<close>, and every raise of the
  source is a value \<open>Inl e\<close> of a sum type. The sleep score is computed in float
  arithmetic (section Python floats); the numeric library calls of the endpoint and of
  the session classifier are parameters (section The numeric environment); elsewhere
  a float stands for its real value.
\<close>

subsection \<open>Errors\<close>

datatype http_detail =
    NeedAtLeast60 nat       \<comment> \<open>\<^verbatim>\<open>f"Need at least 60 data points, got {len(sensor_data)}"\<close>\<close>
  | PredictionFailed        \<comment> \<open>\<^verbatim>\<open>f"Prediction failed: {str(e)}"\<close>\<close>

datatype error =
    ValueError              \<comment> \<open>numpy or Python \<^verbatim>\<open>ValueError\<close>\<close>
  | NotTrained              \<comment> \<open>\<^verbatim>\<open>ValueError("Model must be trained before prediction")\<close>\<close>
  | NeedSamples nat         \<comment> \<open>\<^verbatim>\<open>ValueError(f"Need at least {sequence_length} samples for prediction")\<close>\<close>
  | NotFittedError          \<comment> \<open>the scaler's \<^verbatim>\<open>transform\<close> before any \<^verbatim>\<open>fit\<close>\<close>
  | AttributeError          \<comment> \<open>\<^verbatim>\<open>self.model\<close> is \<^verbatim>\<open>None\<close>\<close>
  | KeyError
  | IndexError
  | OverflowError           \<comment> \<open>\<^verbatim>\<open>x ** 2\<close> on a float whose square is out of range\<close>
  | HTTPException nat http_detail

subsection \<open>numpy helpers: \<^verbatim>\<open>argmax\<close>, \<^verbatim>\<open>bincount\<close>, slices\<close>

text \<open>
  \<^verbatim>\<open>np.argmax\<close> scans the array once and keeps the first position of the largest
  entry: the running best is replaced only by a strictly larger one. On an empty array
  it raises \<^verbatim>\<open>ValueError\<close>.
\<close>

fun argmax_loop :: "'a::linorder list \<Rightarrow> nat \<Rightarrow> nat \<Rightarrow> 'a \<Rightarrow> nat" where
  "argmax_loop [] i best_i best = best_i"
| "argmax_loop (x # xs) i best_i best =
     (if best < x then argmax_loop xs (Suc i) i x
      else argmax_loop xs (Suc i) best_i best)"

definition argmax :: "'a::linorder list \<Rightarrow> error + nat" where
  "argmax xs = (case xs of [] \<Rightarrow> Inl ValueError | x # rest \<Rightarrow> Inr (argmax_loop rest 1 0 x))"

text \<open>
  \<^verbatim>\<open>np.bincount(labels)\<close>: an array of length \<open>max(labels) + 1\<close> whose entry \<open>v\<close> is
  the number of occurrences of \<open>v\<close>; the empty array for no labels.
\<close>

definition bincount :: "nat list \<Rightarrow> nat list" where
  "bincount labels =
     (if labels = [] then []
      else map (\<lambda>v. count_list labels v) [0..<Suc (fold max labels 0)])"

text \<open>The Python slice \<^verbatim>\<open>xs[i:i + n]\<close> for \<open>i, n \<ge> 0\<close>: it never raises and is cut at the end.\<close>

definition slice :: "'a list \<Rightarrow> nat \<Rightarrow> nat \<Rightarrow> 'a list" where
  "slice xs i n = take n (drop i xs)"

text \<open>
  The Python slice \<^verbatim>\<open>xs[-n:]\<close> for \<open>n \<ge> 0\<close>: the last \<open>n\<close> elements, the whole list
  when it is shorter than \<open>n\<close>, and also the whole list for \<open>n = 0\<close> (\<^verbatim>\<open>xs[-0:]\<close> is
  \<^verbatim>\<open>xs[0:]\<close>).
\<close>

definition last_n :: "nat \<Rightarrow> 'a list \<Rightarrow> 'a list" where
  "last_n n xs = (if n = 0 then xs else drop (length xs - n) xs)"

subsection \<open>Python floats\<close>

text \<open>
  A Python float is an IEEE 754 binary64 number; its value is a rational. The operations
  \<^verbatim>\<open>+\<close>, \<^verbatim>\<open>-\<close>, \<^verbatim>\<open>*\<close>, \<^verbatim>\<open>/\<close> return the exact result rounded to the nearest number
  with a significand of 53 bits, a tie to the one with even significand; a decimal
  literal is the rounding of its decimal value, and so is the quotient of two integers.
  \<open>fl\<close> is that rounding: \<open>exponent_of x\<close> is the exponent \<open>e\<close> with
  \<open>2^e \<le> |x| < 2^(e+1)\<close>, and \<open>x\<close> is rounded to a multiple of \<open>2^(e-52)\<close>.
  The exponent is not bounded here: infinities, NaN and subnormal numbers are not values
  of this model.
\<close>

definition pow2 :: "int \<Rightarrow> rat" where
  "pow2 e = (if 0 \<le> e then 2 ^ nat e else 1 / 2 ^ nat (- e))"

definition exponent_of :: "rat \<Rightarrow> int" where
  "exponent_of x =
     (let (p, q) = quotient_of \<bar>x\<bar>; e0 = bitlen p - bitlen q
      in if pow2 e0 \<le> \<bar>x\<bar> then e0 else e0 - 1)"

definition round_half_even :: "rat \<Rightarrow> int" where
  "round_half_even y =
     (let f = \<lfloor>y\<rfloor>; d = y - of_int f
      in if d < 1 / 2 then f else if 1 / 2 < d then f + 1 else if even f then f else f + 1)"

definition fl :: "rat \<Rightarrow> rat" where
  "fl x = (if x = 0 then 0
           else let u = pow2 (exponent_of x - 52) in of_int (round_half_even (x / u)) * u)"

definition fadd :: "rat \<Rightarrow> rat \<Rightarrow> rat" where "fadd x y = fl (x + y)"
definition fsub :: "rat \<Rightarrow> rat \<Rightarrow> rat" where "fsub x y = fl (x - y)"
definition fmul :: "rat \<Rightarrow> rat \<Rightarrow> rat" where "fmul x y = fl (x * y)"

text \<open>Every divisor below is a non-zero constant or a list length that was tested before.\<close>

definition fdiv :: "rat \<Rightarrow> rat \<Rightarrow> rat" where "fdiv x y = fl (x / y)"

text \<open>
  \<^verbatim>\<open>round(x, 2)\<close> on a float: the float nearest to the decimal with two places that is
  nearest to the exact value of \<open>x\<close>, a tie between two such decimals to the even one.
\<close>

definition py_round2 :: "rat \<Rightarrow> rat" where
  "py_round2 x = fl (of_int (round_half_even (x * 100)) / 100)"

text \<open>The real value of the float that a decimal literal of the source denotes.\<close>

definition float_literal :: "rat \<Rightarrow> real" where
  "float_literal d = of_rat (fl d)"

subsection \<open>Majority-vote window label\<close>

text \<open>
  \<^verbatim>\<open>np.bincount(window_labels).argmax()\<close>, as in \<^verbatim>\<open>SleepPhaseClassifier.train\<close> and in
  the sliding-window loop of \<^verbatim>\<open>train_final.py\<close>.
\<close>

definition majority_label :: "nat list \<Rightarrow> error + nat" where
  "majority_label window_labels = argmax (bincount window_labels)"

subsection \<open>Sliding windows\<close>

text \<open>
  Python's \<^verbatim>\<open>range(i, stop, step)\<close> for a positive step, as the list of indices the
  loop body sees. \<open>stop\<close> is an \<open>int\<close>: \<^verbatim>\<open>len(features) - window_size\<close> is negative
  for a short session, and the range is then empty.
\<close>

function range_step :: "nat \<Rightarrow> int \<Rightarrow> nat \<Rightarrow> nat list" where
  "range_step i stop step =
     (if 0 < step \<and> int i < stop then i # range_step (i + step) stop step else [])"
  by pat_completeness auto
termination
  by (relation "measure (\<lambda>(i, stop, step). nat (stop - int i))") auto

declare range_step.simps [simp del]

text \<open>
  The per-session loop of \<^verbatim>\<open>train_final.py\<close>. A session is a list of rows, each a
  feature vector with its stage label (the columns \<^verbatim>\<open>x, y, z, magnitude\<close> and
  \<^verbatim>\<open>stage_label\<close> of one data frame, so both have the same length).
  \<^verbatim>\<open>
  for i in range(0, len(features) - window_size, step_size):
      window = features[i:i + window_size]
      label = np.bincount(labels[i:i + window_size]).argmax()
      X_windows.append(window)
      y_labels.append(label)
  \<close>
\<close>

fun window_loop :: "('a \<times> nat) list \<Rightarrow> nat \<Rightarrow> nat list \<Rightarrow> error + ('a list \<times> nat) list" where
  "window_loop rows window_size [] = Inr []"
| "window_loop rows window_size (i # is) =
     (let window = map fst (slice rows i window_size) in
      case majority_label (map snd (slice rows i window_size)) of
        Inl e \<Rightarrow> Inl e
      | Inr label \<Rightarrow>
          (case window_loop rows window_size is of
             Inl e \<Rightarrow> Inl e
           | Inr rest \<Rightarrow> Inr ((window, label) # rest)))"

definition sliding_windows :: "('a \<times> nat) list \<Rightarrow> nat \<Rightarrow> nat \<Rightarrow> error + ('a list \<times> nat) list" where
  "sliding_windows rows window_size step_size =
     (if step_size = 0 then Inl ValueError
      else window_loop rows window_size
             (range_step 0 (int (length rows) - int window_size) step_size))"

text \<open>
  \<^verbatim>\<open>SleepLSTMModel.create_sequences\<close>: one sequence per index of
  \<^verbatim>\<open>range(len(data) - self.sequence_length)\<close>; with labels, the label of a sequence is
  the label of the sample that follows it, \<^verbatim>\<open>labels[i + self.sequence_length]\<close>.
  Without labels the second component is empty.
\<close>

fun sequence_loop :: "'a list \<Rightarrow> nat list option \<Rightarrow> nat \<Rightarrow> nat list \<Rightarrow> error + ('a list list \<times> nat list)" where
  "sequence_loop data labels n [] = Inr ([], [])"
| "sequence_loop data labels n (i # is) =
     (let seq = slice data i n in
      case labels of
        None \<Rightarrow>
          (case sequence_loop data labels n is of
             Inl e \<Rightarrow> Inl e
           | Inr (sequences, sequence_labels) \<Rightarrow> Inr (seq # sequences, sequence_labels))
      | Some ls \<Rightarrow>
          if length ls \<le> i + n then Inl IndexError
          else (case sequence_loop data labels n is of
                  Inl e \<Rightarrow> Inl e
                | Inr (sequences, sequence_labels) \<Rightarrow>
                    Inr (seq # sequences, ls ! (i + n) # sequence_labels)))"

definition create_sequences :: "nat \<Rightarrow> 'a list \<Rightarrow> nat list option \<Rightarrow> error + ('a list list \<times> nat list)" where
  "create_sequences sequence_length data labels =
     sequence_loop data labels sequence_length
       (range_step 0 (int (length data) - int sequence_length) 1)"

subsection \<open>The sequence classifier of \<^verbatim>\<open>lstm_model.py\<close>\<close>

text \<open>
  The network and the scaler are library objects; the model keeps them as functions.
  \<open>model\<close> is \<open>None\<close> until \<^verbatim>\<open>build_model\<close> or \<^verbatim>\<open>load_model\<close> ran, and stands for
  \<^verbatim>\<open>self.model.predict(sequence)[0]\<close> on one sequence; \<open>scaler\<close> is \<open>None\<close> while the
  \<^verbatim>\<open>StandardScaler\<close> is not fitted, and its \<^verbatim>\<open>transform\<close> then raises.
\<close>

record SleepLSTMModel =
  sequence_length :: nat
  n_features :: nat
  model :: "(real list list \<Rightarrow> real list) option"
  scaler :: "(real list list \<Rightarrow> real list list) option"
  is_trained :: bool

definition phase_map :: "nat \<rightharpoonup> string" where
  "phase_map = [0 \<mapsto> ''awake'', 1 \<mapsto> ''light'', 2 \<mapsto> ''deep'', 3 \<mapsto> ''rem'']"

record probs =
  awake :: real
  light :: real
  deep :: real
  rem :: real

record phase_dict =
  phase :: string

record prediction = phase_dict +
  confidence :: real
  probabilities :: probs

record indexed_prediction = prediction +
  timestamp_index :: nat

text \<open>\<^verbatim>\<open>prepare_features\<close>: every row \<open>[x, y, z]\<close> gets its Euclidean norm appended.\<close>

definition magnitude :: "real list \<Rightarrow> real" where
  "magnitude row = sqrt (sum_list (map (\<lambda>v. v\<^sup>2) row))"

definition prepare_features :: "real list list \<Rightarrow> real list list" where
  "prepare_features accel_data = map (\<lambda>row. row @ [magnitude row]) accel_data"

text \<open>
  \<^verbatim>\<open>a.reshape(-1, cols)\<close> and \<^verbatim>\<open>a.reshape(1, rows, cols)\<close> on a two-dimensional array:
  the entries in row-major order, cut again into rows of \<open>cols\<close> entries; a
  \<^verbatim>\<open>ValueError\<close> when the number of entries does not fit.
\<close>

definition regroup :: "nat \<Rightarrow> nat \<Rightarrow> 'a list \<Rightarrow> 'a list list" where
  "regroup rows cols flat = map (\<lambda>r. slice flat (r * cols) cols) [0..<rows]"

definition reshape_any :: "nat \<Rightarrow> 'a list list \<Rightarrow> error + 'a list list" where
  "reshape_any cols a =
     (let flat = concat a in
      if cols = 0 then (if flat = [] then Inr [] else Inl ValueError)
      else if length flat mod cols \<noteq> 0 then Inl ValueError
      else Inr (regroup (length flat div cols) cols flat))"

definition reshape_to :: "nat \<Rightarrow> nat \<Rightarrow> 'a list list \<Rightarrow> error + 'a list list" where
  "reshape_to rows cols a =
     (let flat = concat a in
      if length flat \<noteq> rows * cols then Inl ValueError
      else Inr (regroup rows cols flat))"

text \<open>
  The result dictionary built from one output vector: \<^verbatim>\<open>np.argmax\<close>, the lookup in
  \<^verbatim>\<open>phase_map\<close>, then the reads \<^verbatim>\<open>pred[phase_idx]\<close>, \<^verbatim>\<open>pred[0]\<close>, ..., \<^verbatim>\<open>pred[3]\<close>.
\<close>

definition format_prediction :: "real list \<Rightarrow> error + prediction" where
  "format_prediction pred =
     (case argmax pred of
        Inl e \<Rightarrow> Inl e
      | Inr phase_idx \<Rightarrow>
          (case phase_map phase_idx of
             None \<Rightarrow> Inl KeyError
           | Some name \<Rightarrow>
               if length pred < 4 then Inl IndexError
               else Inr \<lparr>phase = name, confidence = pred ! phase_idx,
                         probabilities = \<lparr>awake = pred ! 0, light = pred ! 1,
                                          deep = pred ! 2, rem = pred ! 3\<rparr>\<rparr>))"

fun format_results :: "nat \<Rightarrow> nat \<Rightarrow> real list list \<Rightarrow> error + indexed_prediction list" where
  "format_results n i [] = Inr []"
| "format_results n i (pred # preds) =
     (case format_prediction pred of
        Inl e \<Rightarrow> Inl e
      | Inr r \<Rightarrow>
          (case format_results n (Suc i) preds of
             Inl e \<Rightarrow> Inl e
           | Inr rest \<Rightarrow>
               Inr (\<lparr>phase = phase r, confidence = confidence r,
                     probabilities = probabilities r, timestamp_index = i + n\<rparr> # rest)))"

text \<open>\<^verbatim>\<open>SleepLSTMModel.predict\<close>: the full-session prediction. It checks \<open>is_trained\<close> first.\<close>

definition predict :: "SleepLSTMModel \<Rightarrow> real list list \<Rightarrow> error + indexed_prediction list" where
  "predict m accel_data =
     (if \<not> is_trained m then Inl NotTrained
      else
        let features = prepare_features accel_data in
        case reshape_any (n_features m) features of
          Inl e \<Rightarrow> Inl e
        | Inr flat_in \<Rightarrow>
            (case scaler m of
               None \<Rightarrow> Inl NotFittedError
             | Some transform \<Rightarrow>
                 (case reshape_any (n_features m) (transform flat_in) of
                    Inl e \<Rightarrow> Inl e
                  | Inr features_scaled \<Rightarrow>
                      (case create_sequences (sequence_length m) features_scaled None of
                         Inl e \<Rightarrow> Inl e
                       | Inr (sequences, _) \<Rightarrow>
                           (case model m of
                              None \<Rightarrow> Inl AttributeError
                            | Some net \<Rightarrow>
                                format_results (sequence_length m) 0 (map net sequences))))))"

text \<open>
  \<^verbatim>\<open>SleepLSTMModel.predict_realtime\<close>: the length check, the slice
  \<^verbatim>\<open>recent_data[-self.sequence_length:]\<close>, features, scaling, reshape, network, result.
  The source does not read \<open>is_trained\<close> here.
\<close>

definition recent_sequence :: "SleepLSTMModel \<Rightarrow> 'a list \<Rightarrow> 'a list" where
  "recent_sequence m recent_data = last_n (sequence_length m) recent_data"

definition predict_realtime :: "SleepLSTMModel \<Rightarrow> real list list \<Rightarrow> error + prediction" where
  "predict_realtime m recent_data =
     (if length recent_data < sequence_length m then Inl (NeedSamples (sequence_length m))
      else
        let features = prepare_features (recent_sequence m recent_data) in
        case scaler m of
          None \<Rightarrow> Inl NotFittedError
        | Some transform \<Rightarrow>
            (case reshape_to (sequence_length m) (n_features m) (transform features) of
               Inl e \<Rightarrow> Inl e
             | Inr sequence \<Rightarrow>
                 (case model m of
                    None \<Rightarrow> Inl AttributeError
                  | Some net \<Rightarrow> format_prediction (net sequence))))"

subsection \<open>The numeric environment\<close>

text \<open>
  The endpoint and the session classifier of \<^verbatim>\<open>main.py\<close> compute with Python's float
  power and with numpy. What these return is fixed by the C library and by numpy (the
  rounding of \<^verbatim>\<open>pow\<close>, the order in which \<^verbatim>\<open>np.mean\<close> and \<^verbatim>\<open>np.std\<close> add up floats), not
  by this repository, so the functions below take them as a parameter:
  \<open>float_square x\<close> is \<^verbatim>\<open>x ** 2\<close> on a Python float, \<open>None\<close> when it raises \<^verbatim>\<open>OverflowError\<close>
  because the square is out of range; \<open>float_add\<close> is \<^verbatim>\<open>+\<close> on floats; \<open>np_sqrt\<close>, \<open>np_mean\<close> and
  \<open>np_std\<close> are the numpy functions of these names. A float is read as its real value,
  an infinity as a value beyond every threshold; NaN is not a value of this model.
\<close>

record numerics =
  float_square :: "real \<Rightarrow> real option"
  float_add :: "real \<Rightarrow> real \<Rightarrow> real"
  np_sqrt :: "real \<Rightarrow> real"
  np_mean :: "real list \<Rightarrow> real"
  np_std :: "real list \<Rightarrow> real"

subsection \<open>The real-time endpoint of \<^verbatim>\<open>main.py\<close>\<close>

text \<open>
  Record fields share one name space, so the \<^verbatim>\<open>timestamp\<close> of a sensor reading is
  \<open>sample_time\<close> here, and the keys \<^verbatim>\<open>confidence\<close>, \<^verbatim>\<open>probabilities\<close> and
  \<^verbatim>\<open>timestamp\<close> of the endpoint's answer carry the prefix \<open>response_\<close>.
\<close>

record SensorData =
  sample_time :: int
  accel_x :: real
  accel_y :: real
  accel_z :: real
  sound_level :: "real option"
  light_level :: "real option"

text \<open>
  The two module-level variables set while \<^verbatim>\<open>main.py\<close> is imported:
  \<^verbatim>\<open>LSTM_AVAILABLE\<close> and \<^verbatim>\<open>lstm_model\<close> (\<open>None\<close> when the import failed).
\<close>

record app_state =
  LSTM_AVAILABLE :: bool
  lstm_model :: "SleepLSTMModel option"

record realtime_response =
  current_phase :: string
  response_confidence :: real
  response_probabilities :: probs
  is_light_sleep :: bool
  response_timestamp :: int

text \<open>The test \<^verbatim>\<open>LSTM_AVAILABLE and lstm_model.is_trained\<close>, with its short circuit.\<close>

definition model_ready :: "app_state \<Rightarrow> error + bool" where
  "model_ready st =
     (if \<not> LSTM_AVAILABLE st then Inr False
      else case lstm_model st of None \<Rightarrow> Inl AttributeError | Some m \<Rightarrow> Inr (is_trained m))"

text \<open>
  The fallback branch: for each of \<^verbatim>\<open>sensor_data[-60:]\<close> the magnitude
  \<^verbatim>\<open>np.sqrt(d.accel_x**2 + d.accel_y**2 + d.accel_z**2)\<close>, appended one by one (the first
  square that is out of range ends the request with its \<^verbatim>\<open>OverflowError\<close>), then
  \<^verbatim>\<open>np.mean\<close> and the threshold chain on float literals.
\<close>

definition sample_magnitude :: "numerics \<Rightarrow> SensorData \<Rightarrow> error + real" where
  "sample_magnitude env d =
     (case float_square env (accel_x d) of
        None \<Rightarrow> Inl OverflowError
      | Some xx \<Rightarrow>
          (case float_square env (accel_y d) of
             None \<Rightarrow> Inl OverflowError
           | Some yy \<Rightarrow>
               (case float_square env (accel_z d) of
                  None \<Rightarrow> Inl OverflowError
                | Some zz \<Rightarrow> Inr (np_sqrt env (float_add env (float_add env xx yy) zz)))))"

fun magnitudes_loop :: "numerics \<Rightarrow> SensorData list \<Rightarrow> error + real list" where
  "magnitudes_loop env [] = Inr []"
| "magnitudes_loop env (d # ds) =
     (case sample_magnitude env d of
        Inl e \<Rightarrow> Inl e
      | Inr m \<Rightarrow>
          (case magnitudes_loop env ds of
             Inl e \<Rightarrow> Inl e
           | Inr movements \<Rightarrow> Inr (m # movements)))"

definition fallback_movements :: "numerics \<Rightarrow> SensorData list \<Rightarrow> error + real list" where
  "fallback_movements env sensor_data = magnitudes_loop env (last_n 60 sensor_data)"

definition fallback_phase :: "real \<Rightarrow> string" where
  "fallback_phase avg_movement =
     (if avg_movement > float_literal 0.4 then ''awake''
      else if avg_movement < float_literal 0.08 then ''deep''
      else if avg_movement > float_literal 0.15 then ''light''
      else ''rem'')"

definition fallback_response :: "numerics \<Rightarrow> int \<Rightarrow> SensorData list \<Rightarrow> error + realtime_response" where
  "fallback_response env now sensor_data =
     (case fallback_movements env sensor_data of
        Inl e \<Rightarrow> Inl e
      | Inr movements \<Rightarrow>
          (let avg_movement = np_mean env movements;
               phase = fallback_phase avg_movement
           in Inr \<lparr>current_phase = phase, response_confidence = 0.7,
                   response_probabilities =
                     \<lparr>awake = 0.25, light = 0.25, deep = 0.25, rem = 0.25\<rparr>,
                   is_light_sleep = (phase = ''light''), response_timestamp = now\<rparr>))"

text \<open>
  \<^verbatim>\<open>predict_current_phase\<close>. \<open>now\<close> stands for \<^verbatim>\<open>datetime.now()\<close>. Any exception of the
  model branch is caught and raised again as status 500; an exception of the fallback
  branch is not caught.
\<close>

definition predict_current_phase ::
  "numerics \<Rightarrow> app_state \<Rightarrow> int \<Rightarrow> SensorData list \<Rightarrow> error + realtime_response" where
  "predict_current_phase env st now sensor_data =
     (if length sensor_data < 60
      then Inl (HTTPException 400 (NeedAtLeast60 (length sensor_data)))
      else
        case model_ready st of
          Inl e \<Rightarrow> Inl e
        | Inr True \<Rightarrow>
            (let recent_data = map (\<lambda>d. [accel_x d, accel_y d, accel_z d]) (last_n 60 sensor_data)
             in case lstm_model st of
                  None \<Rightarrow> Inl (HTTPException 500 PredictionFailed)
                | Some m \<Rightarrow>
                    (case predict_realtime m recent_data of
                       Inl e \<Rightarrow> Inl (HTTPException 500 PredictionFailed)
                     | Inr p \<Rightarrow>
                         Inr \<lparr>current_phase = phase p, response_confidence = confidence p,
                              response_probabilities = probabilities p,
                              is_light_sleep = (phase p = ''light''),
                              response_timestamp = now\<rparr>))
        | Inr False \<Rightarrow> fallback_response env now sensor_data)"

subsection \<open>The full-session fallback classifier\<close>

text \<open>The members of \<^verbatim>\<open>class SleepPhase(str, Enum)\<close>; a member compares equal to its string.\<close>

definition AWAKE :: string where "AWAKE = ''awake''"
definition LIGHT :: string where "LIGHT = ''light''"
definition DEEP :: string where "DEEP = ''deep''"
definition REM :: string where "REM = ''rem''"

record classified = phase_dict +
  timestamp :: nat
  movement :: real
  movement_std :: real

text \<open>\<^verbatim>\<open>np.max\<close> and \<^verbatim>\<open>np.min\<close> of a non-empty window: they select an element.\<close>

definition np_max :: "real list \<Rightarrow> real" where
  "np_max xs = fold max (tl xs) (hd xs)"

definition np_min :: "real list \<Rightarrow> real" where
  "np_min xs = fold min (tl xs) (hd xs)"

definition classify_window :: "numerics \<Rightarrow> real list \<Rightarrow> string" where
  "classify_window env window =
     (let avg_movement = np_mean env window;
          std_movement = np_std env window;
          max_movement = np_max window;
          min_movement = np_min window
      in if avg_movement > float_literal 0.4 \<or> max_movement > float_literal 0.8 then AWAKE
         else if avg_movement < float_literal 0.08 \<and> std_movement < float_literal 0.03 then DEEP
         else if avg_movement > float_literal 0.15 \<and> std_movement > float_literal 0.05 then LIGHT
         else REM)"

text \<open>
  \<^verbatim>\<open>classify_sleep_phases\<close>: the loop \<^verbatim>\<open>for i in range(0, len(movements), window_size)\<close>
  with \<^verbatim>\<open>window_size = 30\<close>, the slice \<^verbatim>\<open>movements[i:i+window_size]\<close> and the
  \<^verbatim>\<open>continue\<close> on an empty slice.
\<close>

function classify_loop :: "numerics \<Rightarrow> real list \<Rightarrow> nat \<Rightarrow> classified list" where
  "classify_loop env movements i =
     (if i < length movements then
        (let window = slice movements i 30 in
         if length window = 0 then classify_loop env movements (i + 30)
         else \<lparr>phase = classify_window env window, timestamp = i,
               movement = np_mean env window, movement_std = np_std env window\<rparr>
              # classify_loop env movements (i + 30))
      else [])"
  by pat_completeness auto
termination
  by (relation "measure (\<lambda>(env, movements, i). length movements - i)") auto

declare classify_loop.simps [simp del]

definition classify_sleep_phases :: "numerics \<Rightarrow> real list \<Rightarrow> classified list" where
  "classify_sleep_phases env movements = classify_loop env movements 0"

text \<open>The dictionary that the loop appends for the window starting at index \<open>i\<close>.\<close>

definition window_entry :: "numerics \<Rightarrow> real list \<Rightarrow> nat \<Rightarrow> classified" where
  "window_entry env movements i =
     \<lparr>phase = classify_window env (slice movements i 30), timestamp = i,
      movement = np_mean env (slice movements i 30),
      movement_std = np_std env (slice movements i 30)\<rparr>"

subsection \<open>Sleep score\<close>

text \<open>\<^verbatim>\<open>sum(1 for p in phases if p["phase"] == name)\<close>\<close>

definition count_phase :: "string \<Rightarrow> 'a phase_dict_scheme list \<Rightarrow> nat" where
  "count_phase name phases = length (filter (\<lambda>p. phase p = name) phases)"

text \<open>
  \<^verbatim>\<open>calculate_sleep_score\<close>, operation by operation: the four fractions are quotients of
  integers, the literals \<^verbatim>\<open>0.15\<close>, \<^verbatim>\<open>0.25\<close>, \<^verbatim>\<open>0.20\<close>, \<^verbatim>\<open>0.45\<close>, \<^verbatim>\<open>0.55\<close>, \<^verbatim>\<open>0.50\<close> are
  floats, the sum is taken from left to right, and \<^verbatim>\<open>max(0, x)\<close> and \<^verbatim>\<open>min(100, x)\<close>
  select one of their arguments.
\<close>

definition calculate_sleep_score :: "'a phase_dict_scheme list \<Rightarrow> rat \<Rightarrow> rat" where
  "calculate_sleep_score phases duration =
     (if duration = 0 \<or> length phases = 0 then 0
      else
        let deep_count = count_phase DEEP phases;
            light_count = count_phase LIGHT phases;
            rem_count = count_phase REM phases;
            awake_count = count_phase AWAKE phases;
            total_phases = length phases;
            deep_pct = fdiv (of_nat deep_count) (of_nat total_phases);
            light_pct = fdiv (of_nat light_count) (of_nat total_phases);
            rem_pct = fdiv (of_nat rem_count) (of_nat total_phases);
            awake_pct = fdiv (of_nat awake_count) (of_nat total_phases);
            deep_score =
              (if fl 0.15 \<le> deep_pct \<and> deep_pct \<le> fl 0.25 then 25
               else if deep_pct > fl 0.25
                 then max 0 (fsub 25 (fmul (fsub deep_pct (fl 0.25)) 50))
               else fmul (fdiv deep_pct (fl 0.15)) 25);
            rem_score =
              (if fl 0.20 \<le> rem_pct \<and> rem_pct \<le> fl 0.25 then 25
               else if rem_pct > fl 0.25
                 then max 0 (fsub 25 (fmul (fsub rem_pct (fl 0.25)) 50))
               else fmul (fdiv rem_pct (fl 0.20)) 25);
            light_score =
              (if fl 0.45 \<le> light_pct \<and> light_pct \<le> fl 0.55 then 20
               else max 0 (fsub 20 (fmul \<bar>fsub light_pct (fl 0.50)\<bar> 40)));
            duration_score =
              (if 7 \<le> duration \<and> duration \<le> 9 then 20
               else if duration < 7 then max 0 (fmul (fdiv duration 7) 20)
               else max 0 (fsub 20 (fmul (fsub duration 9) 5)));
            awake_penalty = min (fmul awake_pct 100) 10;
            score = fsub (fadd (fadd (fadd deep_score rem_score) light_score) duration_score)
                      awake_penalty
        in py_round2 (max 0 (min 100 score)))"

text \<open>
  The score as the specification words it, on the four fractions and the duration, in
  the same float arithmetic: a band score (full 25 inside the band \<open>[lo, hi]\<close>, a ramp
  \<open>pct / lo * 25\<close> below it, a penalty of 50 per unit above it, floored at 0), the light
  score, the duration score, the awake penalty, the clamp to \<open>[0, 100]\<close>, and the
  rounding to two decimals.
\<close>

definition spec_band_score :: "rat \<Rightarrow> rat \<Rightarrow> rat \<Rightarrow> rat" where
  "spec_band_score lo hi pct =
     (if fl lo \<le> pct \<and> pct \<le> fl hi then 25
      else if pct < fl lo then fmul (fdiv pct (fl lo)) 25
      else max 0 (fsub 25 (fmul (fsub pct (fl hi)) 50)))"

definition spec_light_score :: "rat \<Rightarrow> rat" where
  "spec_light_score light_pct =
     (if fl 0.45 \<le> light_pct \<and> light_pct \<le> fl 0.55 then 20
      else max 0 (fsub 20 (fmul \<bar>fsub light_pct (fl 0.50)\<bar> 40)))"

definition spec_duration_score :: "rat \<Rightarrow> rat" where
  "spec_duration_score duration =
     (if 7 \<le> duration \<and> duration \<le> 9 then 20
      else if duration < 7 then fmul (fdiv duration 7) 20
      else max 0 (fsub 20 (fmul (fsub duration 9) 5)))"

definition clamp :: "rat \<Rightarrow> rat \<Rightarrow> rat \<Rightarrow> rat" where
  "clamp x lo hi = (if x < lo then lo else if hi < x then hi else x)"

definition spec_clamped_sum :: "rat \<Rightarrow> rat \<Rightarrow> rat \<Rightarrow> rat \<Rightarrow> rat \<Rightarrow> rat" where
  "spec_clamped_sum deep_pct rem_pct light_pct awake_pct duration =
     clamp (fsub (fadd (fadd (fadd (spec_band_score 0.15 0.25 deep_pct)
                                   (spec_band_score 0.20 0.25 rem_pct))
                             (spec_light_score light_pct))
                       (spec_duration_score duration))
                 (min (fmul awake_pct 100) 10)) 0 100"

definition spec_sleep_score :: "rat \<Rightarrow> rat \<Rightarrow> rat \<Rightarrow> rat \<Rightarrow> rat \<Rightarrow> rat" where
  "spec_sleep_score deep_pct rem_pct light_pct awake_pct duration =
     py_round2 (spec_clamped_sum deep_pct rem_pct light_pct awake_pct duration)"

text \<open>The fraction of the entries with a given phase, \<^verbatim>\<open>count / total\<close> as a float.\<close>

definition phase_fraction :: "string \<Rightarrow> 'a phase_dict_scheme list \<Rightarrow> rat" where
  "phase_fraction name phases = fdiv (of_nat (count_phase name phases)) (of_nat (length phases))"

subsection \<open>Recommendations\<close>

text \<open>The fraction \<^verbatim>\<open>sum(1 for p in phases if ...) / total\<close> that the threshold rules compare.\<close>

definition pct :: "string \<Rightarrow> 'a phase_dict_scheme list \<Rightarrow> real" where
  "pct name phases = real (count_phase name phases) / real (length phases)"

text \<open>
  The fourteen message literals of \<^verbatim>\<open>generate_recommendations\<close>, one constructor each
  (the texts carry emoji and are not reproduced): the insufficient-data message, the
  four overall-score messages, two messages each for deep sleep, REM sleep,
  awakenings and light sleep, and the closing general tips.
\<close>

datatype recommendation =
    NotEnoughData
  | Excellent | Good | Fair | Poor
  | LowDeep | HighDeep
  | LowRem | HighRem
  | FrequentAwakenings | SomeAwakenings
  | LowLight | HighLight
  | GeneralTips

datatype rule = OverallRule | DeepRule | RemRule | AwakeRule | LightRule | TipsRule | NoDataRule

fun rule_of :: "recommendation \<Rightarrow> rule" where
  "rule_of NotEnoughData = NoDataRule"
| "rule_of Excellent = OverallRule"
| "rule_of Good = OverallRule"
| "rule_of Fair = OverallRule"
| "rule_of Poor = OverallRule"
| "rule_of LowDeep = DeepRule"
| "rule_of HighDeep = DeepRule"
| "rule_of LowRem = RemRule"
| "rule_of HighRem = RemRule"
| "rule_of FrequentAwakenings = AwakeRule"
| "rule_of SomeAwakenings = AwakeRule"
| "rule_of LowLight = LightRule"
| "rule_of HighLight = LightRule"
| "rule_of GeneralTips = TipsRule"

definition generate_recommendations :: "real \<Rightarrow> 'a phase_dict_scheme list \<Rightarrow> recommendation list" where
  "generate_recommendations score phases =
     (if length phases = 0 then [NotEnoughData]
      else
        let recommendations = [];
            total = length phases;
            deep_pct = real (count_phase DEEP phases) / real total;
            light_pct = real (count_phase LIGHT phases) / real total;
            rem_pct = real (count_phase REM phases) / real total;
            awake_pct = real (count_phase AWAKE phases) / real total;
            recommendations =
              (if score \<ge> 85 then recommendations @ [Excellent]
               else if score \<ge> 70 then recommendations @ [Good]
               else if score \<ge> 50 then recommendations @ [Fair]
               else recommendations @ [Poor]);
            recommendations =
              (if deep_pct < 0.13 then recommendations @ [LowDeep]
               else if deep_pct > 0.30 then recommendations @ [HighDeep]
               else recommendations);
            recommendations =
              (if rem_pct < 0.15 then recommendations @ [LowRem]
               else if rem_pct > 0.30 then recommendations @ [HighRem]
               else recommendations);
            recommendations =
              (if awake_pct > 0.10 then recommendations @ [FrequentAwakenings]
               else if awake_pct > 0.05 then recommendations @ [SomeAwakenings]
               else recommendations);
            recommendations =
              (if light_pct < 0.35 then recommendations @ [LowLight]
               else if light_pct > 0.65 then recommendations @ [HighLight]
               else recommendations);
            recommendations =
              (if score < 70 then recommendations @ [GeneralTips] else recommendations)
        in recommendations)"

subsection \<open>Sample inputs\<close>

text \<open>
  Inputs for the concrete evaluations below: a sensor reading with given acceleration,
  the service state without a classifier, the service state holding a classifier, and
  a classifier whose scaler is fitted (the identity) and whose network is built (it
  answers \<open>[0.1, 0.2, 0.3, 0.4]\<close> on every sequence), with \<open>is_trained\<close> as given. With
  \<open>is_trained = False\<close> this is the object left behind when \<^verbatim>\<open>train\<close> has fitted the
  scaler and built the network but \<^verbatim>\<open>self.model.fit\<close> did not return.
\<close>

text \<open>
  \<open>exact_numerics\<close> is the numeric environment without rounding and without overflow. It
  is used below only on inputs whose coordinates are small integers with integer
  magnitudes, where every float operation involved is exact.
\<close>

definition exact_numerics :: numerics where
  "exact_numerics =
     \<lparr>float_square = (\<lambda>x. Some (x\<^sup>2)), float_add = (\<lambda>x y. x + y), np_sqrt = sqrt,
      np_mean = (\<lambda>xs. sum_list xs / real (length xs)),
      np_std = (\<lambda>xs. sqrt (sum_list (map (\<lambda>x. (x - sum_list xs / real (length xs))\<^sup>2) xs)
                             / real (length xs)))\<rparr>"

definition sample :: "real \<Rightarrow> real \<Rightarrow> real \<Rightarrow> SensorData" where
  "sample x y z = \<lparr>sample_time = 0, accel_x = x, accel_y = y, accel_z = z,
                   sound_level = None, light_level = None\<rparr>"

definition no_model :: app_state where
  "no_model = \<lparr>LSTM_AVAILABLE = False, lstm_model = None\<rparr>"

definition with_model :: "SleepLSTMModel \<Rightarrow> app_state" where
  "with_model m = \<lparr>LSTM_AVAILABLE = True, lstm_model = Some m\<rparr>"

definition constant_net :: "bool \<Rightarrow> SleepLSTMModel" where
  "constant_net trained =
     \<lparr>sequence_length = 60, n_features = 4, model = Some (\<lambda>_. [0.1, 0.2, 0.3, 0.4]),
      scaler = Some (\<lambda>x. x), is_trained = trained\<rparr>"

section \<open>Properties\<close>

subsection \<open>\<open>argmax\<close> returns the first position of the maximum\<close>

lemma argmax_loop_bounds:
  "best_i < i \<Longrightarrow> argmax_loop xs i best_i best < i + length xs"
proof (induction xs arbitrary: i best_i best)
  case Nil
  then show ?case by simp
next
  case (Cons x xs)
  have "argmax_loop xs (Suc i) i x < Suc i + length xs"
    by (rule Cons.IH) simp
  moreover have "argmax_loop xs (Suc i) best_i best < Suc i + length xs"
    by (rule Cons.IH) (use Cons.prems in simp)
  ultimately show ?case by simp
qed

lemma argmax_loop_spec:
  fixes pre :: "'a::linorder list"
  assumes "length pre = i" "best_i < i" "pre ! best_i = best"
    and "\<forall>j<i. pre ! j \<le> best" "\<forall>j<best_i. pre ! j < best"
  shows "(\<forall>j<i + length xs. (pre @ xs) ! j \<le> (pre @ xs) ! argmax_loop xs i best_i best) \<and>
         (\<forall>j<argmax_loop xs i best_i best. (pre @ xs) ! j < (pre @ xs) ! argmax_loop xs i best_i best)"
  using assms
proof (induction xs arbitrary: pre i best_i best)
  case Nil
  then show ?case by simp
next
  case (Cons x xs)
  let ?pre = "pre @ [x]"
  have app: "pre @ x # xs = ?pre @ xs" by simp
  have lenp: "length ?pre = Suc i" using Cons.prems(1) by simp
  show ?case
  proof (cases "best < x")
    case True
    have a: "i < Suc i" by simp
    have b: "?pre ! i = x" using Cons.prems(1) by (simp add: nth_append)
    have c: "\<forall>j<Suc i. ?pre ! j \<le> x"
      using Cons.prems(1,4) True b by (auto simp: nth_append less_Suc_eq)
    have d: "\<forall>j<i. ?pre ! j < x"
      using Cons.prems(1,4) True by (auto simp: nth_append)
    from Cons.IH [OF lenp a b c d] True show ?thesis
      unfolding app by simp
  next
    case False
    have a: "best_i < Suc i" using Cons.prems(2) by simp
    have b: "?pre ! best_i = best" using Cons.prems(1,2,3) by (simp add: nth_append)
    have c: "\<forall>j<Suc i. ?pre ! j \<le> best"
      using Cons.prems(1,4) False by (auto simp: nth_append less_Suc_eq)
    have d: "\<forall>j<best_i. ?pre ! j < best"
      using Cons.prems(1,2,5) by (auto simp: nth_append)
    from Cons.IH [OF lenp a b c d] False show ?thesis
      unfolding app by simp
  qed
qed

lemma argmax_first_max:
  assumes "argmax xs = Inr k"
  shows "k < length xs \<and> (\<forall>j<length xs. xs ! j \<le> xs ! k) \<and> (\<forall>j<k. xs ! j < xs ! k)"
proof (cases xs)
  case Nil
  with assms show ?thesis by (simp add: argmax_def)
next
  case (Cons x rest)
  with assms have k: "k = argmax_loop rest 1 0 x" by (simp add: argmax_def)
  have bound: "k < length xs"
    using argmax_loop_bounds [of 0 1 rest x] Cons k by simp
  have "(\<forall>j<1 + length rest. ([x] @ rest) ! j \<le> ([x] @ rest) ! argmax_loop rest 1 0 x) \<and>
        (\<forall>j<argmax_loop rest 1 0 x. ([x] @ rest) ! j < ([x] @ rest) ! argmax_loop rest 1 0 x)"
    by (rule argmax_loop_spec) simp_all
  with Cons k bound show ?thesis by simp
qed

lemma argmax_nonempty: "xs \<noteq> [] \<Longrightarrow> \<exists>k. argmax xs = Inr k"
  by (cases xs) (simp_all add: argmax_def)

subsection \<open>Majority vote\<close>







subsection \<open>Window counts and window contents\<close>

lemma range_step_steps:
  assumes "0 < step"
    and "c = 0 \<longrightarrow> stop \<le> int i"
    and "0 < c \<longrightarrow> int (i + (c - 1) * step) < stop \<and> stop \<le> int (i + c * step)"
  shows "range_step i stop step = map (\<lambda>k. i + k * step) [0..<c]"
  using assms
proof (induction c arbitrary: i)
  case 0
  then show ?case by (subst range_step.simps) simp
next
  case (Suc c)
  from Suc.prems have lt: "int i < stop"
    by (auto intro: le_less_trans [rotated])
  have rest: "range_step (i + step) stop step = map (\<lambda>k. (i + step) + k * step) [0..<c]"
  proof (rule Suc.IH)
    show "0 < step" by fact
    show "c = 0 \<longrightarrow> stop \<le> int (i + step)" using Suc.prems by auto
    show "0 < c \<longrightarrow> int (i + step + (c - 1) * step) < stop \<and> stop \<le> int (i + step + c * step)"
    proof
      assume c: "0 < c"
      then have "i + step + (c - 1) * step = i + c * step"
        by (cases c) simp_all
      then show "int (i + step + (c - 1) * step) < stop \<and> stop \<le> int (i + step + c * step)"
        using Suc.prems by (simp add: add.assoc)
    qed
  qed
  have "range_step i stop step = i # range_step (i + step) stop step"
    using lt \<open>0 < step\<close> by (subst range_step.simps) simp
  also have "\<dots> = i # map (\<lambda>k. (i + step) + k * step) [0..<c]" by (simp only: rest)
  also have "\<dots> = map (\<lambda>k. i + k * step) [0..<Suc c]"
    by (simp add: upt_conv_Cons map_Suc_upt [symmetric] del: upt_Suc)
  finally show ?case .
qed

lemma range_step_eq:
  assumes "0 < step"
  shows "range_step 0 (int n - int w) step =
         map (\<lambda>k. k * step) [0..<(if w < n then (n - w - 1) div step + 1 else 0)]"
proof (cases "w < n")
  case False
  then have "range_step 0 (int n - int w) step = []"
    by (subst range_step.simps) simp
  with False show ?thesis by simp
next
  case True
  define d where "d = n - w - 1"
  define c where "c = d div step + 1"
  have stop: "int n - int w = int (Suc d)" using True by (simp add: d_def)
  have lo: "(c - 1) * step \<le> d" by (simp add: c_def)
  have hi: "d < c * step"
    using assms by (simp add: c_def) (metis dividend_less_div_times)
  have "range_step 0 (int (Suc d)) step = map (\<lambda>k. 0 + k * step) [0..<c]"
  proof (rule range_step_steps [OF assms])
    show "c = 0 \<longrightarrow> int (Suc d) \<le> int 0" by (simp add: c_def)
    show "0 < c \<longrightarrow> int (0 + (c - 1) * step) < int (Suc d) \<and> int (Suc d) \<le> int (0 + c * step)"
      using lo hi unfolding of_nat_less_iff of_nat_le_iff by auto
  qed
  with True stop show ?thesis by (simp add: c_def d_def del: of_nat_Suc)
qed


lemma majority_label_defined: "labels \<noteq> [] \<Longrightarrow> \<exists>l. majority_label labels = Inr l"
  unfolding majority_label_def by (rule argmax_nonempty) (simp add: bincount_def)

lemma window_loop_ok:
  assumes "0 < w" "\<forall>i\<in>set is. i < length rows"
  shows "\<exists>ws. window_loop rows w is = Inr ws \<and>
              map fst ws = map (\<lambda>i. map fst (slice rows i w)) is"
  using assms(2)
proof (induction "is")
  case Nil
  then show ?case by simp
next
  case (Cons i "is")
  then have "i < length rows" by simp
  with \<open>0 < w\<close> have "map snd (slice rows i w) \<noteq> []" by (simp add: slice_def)
  then obtain l where l: "majority_label (map snd (slice rows i w)) = Inr l"
    using majority_label_defined by blast
  from Cons obtain ws where ws: "window_loop rows w is = Inr ws"
    "map fst ws = map (\<lambda>i. map fst (slice rows i w)) is" by auto
  show ?case using l ws by simp
qed

lemma sequence_loop_ok:
  assumes "\<forall>ls. labels = Some ls \<longrightarrow> (\<forall>i\<in>set is. i + n < length ls)"
  shows "sequence_loop data labels n is =
         Inr (map (\<lambda>i. slice data i n) is,
              case labels of None \<Rightarrow> [] | Some ls \<Rightarrow> map (\<lambda>i. ls ! (i + n)) is)"
  using assms
proof (induction "is")
  case Nil
  then show ?case by (simp split: option.splits)
next
  case (Cons i "is")
  then have IH: "sequence_loop data labels n is =
         Inr (map (\<lambda>i. slice data i n) is,
              case labels of None \<Rightarrow> [] | Some ls \<Rightarrow> map (\<lambda>i. ls ! (i + n)) is)"
    by simp
  show ?case
  proof (cases labels)
    case None
    with IH show ?thesis by simp
  next
    case (Some ls)
    with Cons.prems have "i + n < length ls" by simp
    with IH Some show ?thesis by simp
  qed
qed

lemma slice_nth:
  "i + n \<le> length xs \<Longrightarrow> length (slice xs i n) = n \<and> (\<forall>j<n. slice xs i n ! j = xs ! (i + j))"
  by (simp add: slice_def)

lemma window_start_bound:
  assumes "0 < (s::nat)" "w < n" "k < (n - w - 1) div s + 1"
  shows "k * s + w < n"
proof -
  from assms(3) have "k \<le> (n - w - 1) div s" by simp
  then have "k * s \<le> ((n - w - 1) div s) * s" by simp
  also have "\<dots> \<le> n - w - 1" by simp
  finally show ?thesis using assms(2) by simp
qed

lemma sliding_windows_spec:
  assumes "0 < window_size" "0 < step_size"
  shows "\<exists>ws. sliding_windows rows window_size step_size = Inr ws \<and>
      length ws = (if window_size < length rows
                   then (length rows - window_size - 1) div step_size + 1 else 0) \<and>
      (\<forall>k<length ws. length (fst (ws ! k)) = window_size \<and>
         (\<forall>j<window_size. fst (ws ! k) ! j = fst (rows ! (k * step_size + j))))"
proof -
  let ?c = "if window_size < length rows
            then (length rows - window_size - 1) div step_size + 1 else 0"
  let ?is = "map (\<lambda>k. k * step_size) [0..<?c]"
  have rng: "range_step 0 (int (length rows) - int window_size) step_size = ?is"
    using assms(2) by (rule range_step_eq)
  have start: "k * step_size + window_size < length rows" if "k < ?c" for k
    using that assms(2) window_start_bound [of step_size window_size "length rows" k]
    by (auto split: if_splits)
  have "\<forall>i\<in>set ?is. i < length rows"
    using start by fastforce
  from window_loop_ok [OF assms(1) this] obtain ws where
    ws: "window_loop rows window_size ?is = Inr ws"
    and fs: "map fst ws = map (\<lambda>i. map fst (slice rows i window_size)) ?is" by blast
  from arg_cong [OF fs, of length] have len: "length ws = ?c"
    by (simp del: upt_Suc)
  have content: "length (fst (ws ! k)) = window_size \<and>
         (\<forall>j<window_size. fst (ws ! k) ! j = fst (rows ! (k * step_size + j)))"
    if k: "k < length ws" for k
  proof -
    have kc: "k < ?c" using k len by simp
    have "fst (ws ! k) = map fst ws ! k" using k by simp
    also have "\<dots> = map fst (slice rows (k * step_size) window_size)"
      unfolding fs using kc by (simp del: upt_Suc)
    finally have eq: "fst (ws ! k) = map fst (slice rows (k * step_size) window_size)" .
    have "k * step_size + window_size \<le> length rows" using start [OF kc] by simp
    from slice_nth [OF this] show ?thesis unfolding eq by simp
  qed
  show ?thesis
    using ws len content rng assms(2) unfolding sliding_windows_def
    by (intro exI [of _ ws]) (simp del: upt_Suc)
qed

lemma create_sequences_spec:
  assumes "\<forall>ls. labels = Some ls \<longrightarrow> length data \<le> length ls"
  shows "\<exists>seqs lbls. create_sequences n data labels = Inr (seqs, lbls) \<and>
      length seqs = length data - n \<and>
      (\<forall>k<length seqs. length (seqs ! k) = n \<and> (\<forall>j<n. seqs ! k ! j = data ! (k + j))) \<and>
      (labels = None \<longrightarrow> lbls = []) \<and>
      (\<forall>ls. labels = Some ls \<longrightarrow>
         length lbls = length seqs \<and> (\<forall>k<length seqs. lbls ! k = ls ! (k + n)))"
proof -
  let ?c = "if n < length data then (length data - n - 1) div 1 + 1 else 0"
  have c: "?c = length data - n" by auto
  have rng: "range_step 0 (int (length data) - int n) 1 = map (\<lambda>k. k * 1) [0..<?c]"
    by (rule range_step_eq) simp
  then have rng': "range_step 0 (int (length data) - int n) 1 = [0..<length data - n]"
    unfolding c by (simp add: map_idI)
  let ?is = "[0..<length data - n]"
  let ?seqs = "map (\<lambda>i. slice data i n) ?is"
  let ?lbls = "case labels of None \<Rightarrow> [] | Some ls \<Rightarrow> map (\<lambda>i. ls ! (i + n)) ?is"
  have "\<forall>ls. labels = Some ls \<longrightarrow> (\<forall>i\<in>set ?is. i + n < length ls)"
    using assms by auto
  then have "sequence_loop data labels n ?is = Inr (?seqs, ?lbls)"
    by (rule sequence_loop_ok)
  then have "create_sequences n data labels = Inr (?seqs, ?lbls)"
    unfolding create_sequences_def rng' .
  moreover have "length ?seqs = length data - n" by simp
  moreover have "\<forall>k<length ?seqs. length (?seqs ! k) = n \<and> (\<forall>j<n. ?seqs ! k ! j = data ! (k + j))"
    by (auto simp: slice_def simp del: upt_Suc)
  moreover have "labels = None \<longrightarrow> ?lbls = []" by simp
  moreover have "\<forall>ls. labels = Some ls \<longrightarrow>
         length ?lbls = length ?seqs \<and> (\<forall>k<length ?seqs. ?lbls ! k = ls ! (k + n))"
    by (auto simp del: upt_Suc)
  ultimately show ?thesis by blast
qed

lemma div_pred_not_dvd:
  assumes "\<not> s dvd m"
  shows "(m - 1) div s = m div (s::nat)"
proof (cases "s = 0")
  case True
  then show ?thesis by simp
next
  case False
  from assms have r: "0 < m mod s" by (simp add: dvd_eq_mod_eq_0)
  have rs: "m mod s - 1 < s" using False by (simp add: less_imp_diff_less)
  have "m = (m div s) * s + m mod s" by simp
  with r have "m - 1 = (m div s) * s + (m mod s - 1)" by linarith
  then have "(m - 1) div s = ((m div s) * s + (m mod s - 1)) div s" by simp
  also have "\<dots> = m div s" using rs False by simp
  finally show ?thesis .
qed


text \<open>
  The sequence builder gives no sequence for 60 rows, with or without labels, where
  \<open>N - 60 + 1\<close> is 1.
\<close>

theorem windower_count_counterexample:
  "create_sequences 60 (replicate 60 (0::nat)) None = Inr ([], []) \<and>
   create_sequences 60 (replicate 60 (0::nat)) (Some (replicate 60 0)) = Inr ([], []) \<and>
   60 - 60 + 1 = (1::nat)"
  by (simp add: create_sequences_def range_step.simps)

text \<open>
  Claim C1, amended. The sequence builder of the LSTM model (step 1, sequence length \<open>n\<close>)
  yields \<open>N - n\<close> sequences, none for \<open>N \<le> n\<close>; sequence \<open>k\<close> holds exactly the \<open>n\<close> rows
  from index \<open>k\<close> on, and with labels its label is the label of the row that follows it,
  \<open>labels[k + n]\<close>. For a positive window size \<open>w\<close> and step \<open>s\<close> the sliding-window loop
  over \<open>N\<close> rows yields no window when \<open>N < w\<close> and \<open>floor((N - w) / s) + 1\<close> windows
  when \<open>N > w\<close> and \<open>s\<close> does not divide \<open>N - w\<close>; every window \<open>k\<close> it yields holds exactly
  the \<open>w\<close> rows from index \<open>k * s\<close> on. With \<open>w = s = 60\<close> that is \<open>N div 60\<close> windows
  whenever 60 does not divide \<open>N\<close>. Nothing is said here about the number of windows when
  \<open>s\<close> divides \<open>N - w\<close>.
\<close>

theorem windower_count:
  "(0 < window_size \<and> 0 < step_size \<longrightarrow>
      (\<exists>ws. sliding_windows rows window_size step_size = Inr ws \<and>
         (length rows < window_size \<longrightarrow> ws = []) \<and>
         (window_size < length rows \<and> \<not> step_size dvd (length rows - window_size) \<longrightarrow>
            length ws = (length rows - window_size) div step_size + 1) \<and>
         (\<forall>k<length ws. length (fst (ws ! k)) = window_size \<and>
            (\<forall>j<window_size. fst (ws ! k) ! j = fst (rows ! (k * step_size + j)))))) \<and>
   (\<not> 60 dvd length rows \<longrightarrow>
      (\<exists>ws. sliding_windows rows 60 60 = Inr ws \<and> length ws = length rows div 60)) \<and>
   ((\<forall>ls. labels = Some ls \<longrightarrow> length data \<le> length ls) \<longrightarrow>
      (\<exists>seqs lbls. create_sequences n data labels = Inr (seqs, lbls) \<and>
         length seqs = length data - n \<and>
         (\<forall>k<length seqs. length (seqs ! k) = n \<and> (\<forall>j<n. seqs ! k ! j = data ! (k + j))) \<and>
         (labels = None \<longrightarrow> lbls = []) \<and>
         (\<forall>ls. labels = Some ls \<longrightarrow>
            length lbls = length seqs \<and> (\<forall>k<length seqs. lbls ! k = ls ! (k + n)))))"
proof (intro conjI impI)
  assume pos: "0 < window_size \<and> 0 < step_size"
  then obtain ws where ws: "sliding_windows rows window_size step_size = Inr ws"
    and len: "length ws = (if window_size < length rows
                   then (length rows - window_size - 1) div step_size + 1 else 0)"
    and con: "\<forall>k<length ws. length (fst (ws ! k)) = window_size \<and>
         (\<forall>j<window_size. fst (ws ! k) ! j = fst (rows ! (k * step_size + j)))"
    using sliding_windows_spec [of window_size step_size rows] by blast
  have short: "length rows < window_size \<longrightarrow> ws = []" using len by auto
  have exact: "window_size < length rows \<and> \<not> step_size dvd (length rows - window_size) \<longrightarrow>
            length ws = (length rows - window_size) div step_size + 1"
  proof
    assume a: "window_size < length rows \<and> \<not> step_size dvd (length rows - window_size)"
    then have "(length rows - window_size - 1) div step_size
               = (length rows - window_size) div step_size"
      by (intro div_pred_not_dvd) blast
    with len a show "length ws = (length rows - window_size) div step_size + 1" by simp
  qed
  show "\<exists>ws. sliding_windows rows window_size step_size = Inr ws \<and>
         (length rows < window_size \<longrightarrow> ws = []) \<and>
         (window_size < length rows \<and> \<not> step_size dvd (length rows - window_size) \<longrightarrow>
            length ws = (length rows - window_size) div step_size + 1) \<and>
         (\<forall>k<length ws. length (fst (ws ! k)) = window_size \<and>
            (\<forall>j<window_size. fst (ws ! k) ! j = fst (rows ! (k * step_size + j))))"
    using ws short exact con by blast
next
  assume nd: "\<not> 60 dvd length rows"
  obtain ws where ws: "sliding_windows rows 60 60 = Inr ws"
    and len: "length ws = (if 60 < length rows then (length rows - 60 - 1) div 60 + 1 else 0)"
    using sliding_windows_spec [of 60 60 rows] by auto
  have "length ws = length rows div 60"
  proof (cases "60 < length rows")
    case True
    have "\<not> 60 dvd (length rows - 60)"
      using nd True by (metis dvd_diffD less_imp_le_nat dvd_refl)
    then have "(length rows - 60 - 1) div 60 = (length rows - 60) div 60"
      by (rule div_pred_not_dvd)
    moreover have "(length rows - 60) div 60 + 1 = length rows div 60"
      using True by (simp add: le_div_geq)
    ultimately show ?thesis using len True by simp
  next
    case False
    with nd have "length rows < 60" by (cases "length rows = 60") auto
    with len show ?thesis by simp
  qed
  with ws show "\<exists>ws. sliding_windows rows 60 60 = Inr ws \<and> length ws = length rows div 60"
    by blast
next
  assume "\<forall>ls. labels = Some ls \<longrightarrow> length data \<le> length ls"
  then show "\<exists>seqs lbls. create_sequences n data labels = Inr (seqs, lbls) \<and>
         length seqs = length data - n \<and>
         (\<forall>k<length seqs. length (seqs ! k) = n \<and> (\<forall>j<n. seqs ! k ! j = data ! (k + j))) \<and>
         (labels = None \<longrightarrow> lbls = []) \<and>
         (\<forall>ls. labels = Some ls \<longrightarrow>
            length lbls = length seqs \<and> (\<forall>k<length seqs. lbls ! k = ls ! (k + n)))"
    by (rule create_sequences_spec)
qed

theorem windower_count_witness:
  "(0::nat) < 2 \<and> length [(10::nat, 0::nat), (11, 0), (12, 1), (13, 1), (14, 1)] > 2 \<and>
   \<not> (2::nat) dvd (length [(10::nat, 0::nat), (11, 0), (12, 1), (13, 1), (14, 1)] - 2) \<and>
   \<not> 60 dvd length [(10::nat, 0::nat), (11, 0), (12, 1), (13, 1), (14, 1)] \<and>
   length [(10::nat, 0::nat)] < 2 \<and>
   length [10, 11, 12, 13, 14 :: nat] \<le> length [0, 0, 1, 1, 1 :: nat] \<and>
   (\<exists>ws. sliding_windows [(10::nat, 0::nat), (11, 0), (12, 1), (13, 1), (14, 1)] 2 2 = Inr ws \<and>
      length ws = 2 \<and> length (fst (ws ! 1)) = 2 \<and> fst (ws ! 1) ! 0 = 12 \<and> fst (ws ! 1) ! 1 = 13) \<and>
   sliding_windows [(10::nat, 0::nat)] 2 2 = Inr [] \<and>
   (\<exists>ws. sliding_windows [(10::nat, 0::nat), (11, 0), (12, 1), (13, 1), (14, 1)] 60 60 = Inr ws \<and>
      length ws = 0) \<and>
   (\<exists>seqs lbls. create_sequences 2 [10, 11, 12, 13, 14 :: nat] (Some [0, 0, 1, 1, 1]) = Inr (seqs, lbls) \<and>
      length seqs = 3 \<and> length lbls = 3 \<and> seqs ! 2 ! 1 = 13 \<and> lbls ! 2 = 1)"
proof -
  let ?rows = "[(10::nat, 0::nat), (11, 0), (12, 1), (13, 1), (14, 1)]"
  let ?data = "[10, 11, 12, 13, 14 :: nat]"
  let ?ls = "[0, 0, 1, 1, 1 :: nat]"
  have pos: "(0::nat) < 2 \<and> (0::nat) < 2" by simp
  have big: "2 < length ?rows \<and> \<not> (2::nat) dvd (length ?rows - 2)" by simp
  have l5: "length ?rows = 5" by simp
  have nd: "\<not> 60 dvd length ?rows" unfolding l5 by simp
  have short: "length [(10::nat, 0::nat)] < 2" by simp
  have lab: "\<forall>ls. Some ?ls = Some ls \<longrightarrow> length ?data \<le> length ls" by simp
  note a = windower_count [of 2 2 ?rows None "[]" 0, THEN conjunct1]
  note b = windower_count [of 2 2 "[(10::nat, 0::nat)]" None "[]" 0, THEN conjunct1]
  note c = windower_count [of 2 2 ?rows None "[]" 0, THEN conjunct2, THEN conjunct1]
  note d = windower_count [of 2 2 ?rows "Some ?ls" ?data 2, THEN conjunct2, THEN conjunct2]
  from a pos
  obtain ws where ws: "sliding_windows ?rows 2 2 = Inr ws"
    and len: "2 < length ?rows \<and> \<not> 2 dvd (length ?rows - 2) \<longrightarrow>
              length ws = (length ?rows - 2) div 2 + 1"
    and con: "\<forall>k<length ws. length (fst (ws ! k)) = 2 \<and>
            (\<forall>j<2. fst (ws ! k) ! j = fst (?rows ! (k * 2 + j)))"
    by blast
  from len big have len2: "length ws = 2" by simp
  with con have "length (fst (ws ! 1)) = 2 \<and> (\<forall>j<2. fst (ws ! 1) ! j = fst (?rows ! (1 * 2 + j)))"
    by simp
  then have c1: "length (fst (ws ! 1)) = 2 \<and> fst (ws ! 1) ! 0 = 12 \<and> fst (ws ! 1) ! 1 = 13"
    by (simp add: numeral_2_eq_2)
  from b pos short
  have one: "sliding_windows [(10::nat, 0::nat)] 2 2 = Inr []" by blast
  from c nd
  have "\<exists>ws. sliding_windows ?rows 60 60 = Inr ws \<and> length ws = length ?rows div 60"
    by blast
  then have sixty: "\<exists>ws. sliding_windows ?rows 60 60 = Inr ws \<and> length ws = 0" by simp
  from d [THEN mp, OF lab]
  obtain seqs lbls where cs: "create_sequences 2 ?data (Some ?ls) = Inr (seqs, lbls)"
    and sl: "length seqs = length ?data - 2"
    and sc: "\<forall>k<length seqs. length (seqs ! k) = 2 \<and> (\<forall>j<2. seqs ! k ! j = ?data ! (k + j))"
    and ll0: "\<forall>ls. Some ?ls = Some ls \<longrightarrow>
            length lbls = length seqs \<and> (\<forall>k<length seqs. lbls ! k = ls ! (k + 2))"
    by (elim exE conjE)
  from ll0 have ll: "length lbls = length seqs \<and> (\<forall>k<length seqs. lbls ! k = ?ls ! (k + 2))"
    by simp
  from sl have sl3: "length seqs = 3" by simp
  with sc have "seqs ! 2 ! 1 = ?data ! (2 + 1)" by simp
  then have s21: "seqs ! 2 ! 1 = 13" by simp
  from ll sl3 have l3: "length lbls = 3" and "lbls ! 2 = ?ls ! (2 + 2)" by simp_all
  then have l2: "lbls ! 2 = 1" by simp
  have e1: "\<exists>ws. sliding_windows ?rows 2 2 = Inr ws \<and>
      length ws = 2 \<and> length (fst (ws ! 1)) = 2 \<and> fst (ws ! 1) ! 0 = 12 \<and> fst (ws ! 1) ! 1 = 13"
    using ws len2 c1 by blast
  have e2: "\<exists>seqs lbls. create_sequences 2 ?data (Some ?ls) = Inr (seqs, lbls) \<and>
      length seqs = 3 \<and> length lbls = 3 \<and> seqs ! 2 ! 1 = 13 \<and> lbls ! 2 = 1"
    using cs sl3 l3 s21 l2 by blast
  have p1: "(0::nat) < 2" by simp
  have b1: "length ?rows > 2" using big by blast
  have b2: "\<not> (2::nat) dvd (length ?rows - 2)" using big by blast
  have la: "length ?data \<le> length ?ls" by simp
  from p1 b1 b2 nd short la e1 one sixty e2 show ?thesis by (intro conjI)
qed

subsection \<open>The sleep score refines its specification\<close>

lemma pow2_pos: "0 < pow2 e"
  by (simp add: pow2_def)

lemma round_half_even_cases:
  "round_half_even y = \<lfloor>y\<rfloor> \<or> round_half_even y = \<lfloor>y\<rfloor> + 1"
  by (simp add: round_half_even_def Let_def)

lemma round_half_even_int: "round_half_even (of_int n) = n"
  by (simp add: round_half_even_def Let_def)

lemma round_half_even_bounds:
  assumes "of_int a \<le> y" "y \<le> of_int b"
  shows "a \<le> round_half_even y \<and> round_half_even y \<le> b"
proof -
  have lo: "a \<le> \<lfloor>y\<rfloor>" using assms(1) by (simp add: le_floor_iff)
  have hi: "\<lfloor>y\<rfloor> \<le> b" using assms(2) by (simp add: floor_le_iff)
  show ?thesis
  proof (cases "\<lfloor>y\<rfloor> = b")
    case True
    then have "of_int b \<le> y" using of_int_floor_le [of y] by simp
    with assms(2) have "y = of_int b" by simp
    then show ?thesis using lo True by (simp add: round_half_even_int)
  next
    case False
    with hi have "\<lfloor>y\<rfloor> + 1 \<le> b" by simp
    with lo hi round_half_even_cases [of y] show ?thesis by auto
  qed
qed

lemma round_half_even_close: "\<bar>of_int (round_half_even y) - y\<bar> \<le> 1 / 2"
proof -
  have "of_int \<lfloor>y\<rfloor> \<le> y" "y < of_int \<lfloor>y\<rfloor> + 1" by linarith+
  then show ?thesis
    by (auto simp: round_half_even_def Let_def abs_le_iff)
qed

lemma fl_nonneg: "0 \<le> x \<Longrightarrow> 0 \<le> fl x"
proof -
  assume x: "0 \<le> x"
  let ?u = "pow2 (exponent_of x - 52)"
  have u: "0 < ?u" by (rule pow2_pos)
  then have "of_int 0 \<le> x / ?u" using x by simp
  then have "0 \<le> round_half_even (x / ?u)"
    using round_half_even_cases [of "x / ?u"] by (auto simp: le_floor_iff)
  then have "0 \<le> of_int (round_half_even (x / ?u)) * ?u" using u by simp
  then show ?thesis by (simp add: fl_def Let_def)
qed

lemma py_round2_pin:
  assumes "0 \<le> x" "x \<le> 100"
  shows "\<exists>n. py_round2 x = fl (of_int n / 100) \<and> 0 \<le> n \<and> n \<le> 10000 \<and>
             \<bar>of_int n / 100 - x\<bar> \<le> 1 / 200"
proof -
  let ?n = "round_half_even (x * 100)"
  have "of_int 0 \<le> x * 100" "x * 100 \<le> of_int 10000" using assms by simp_all
  from round_half_even_bounds [OF this] have b: "0 \<le> ?n" "?n \<le> 10000" by simp_all
  have c: "\<bar>of_int ?n - x * 100\<bar> \<le> 1 / 2" by (rule round_half_even_close)
  have e: "of_int ?n / 100 - x = (of_int ?n - x * 100) / 100" by (simp add: diff_divide_distrib)
  have "\<bar>of_int ?n / 100 - x\<bar> = \<bar>of_int ?n - x * 100\<bar> / 100"
    unfolding e by (simp only: abs_divide abs_numeral)
  also have "\<dots> \<le> (1 / 2) / 100" using c by (intro divide_right_mono) simp_all
  finally have "\<bar>of_int ?n / 100 - x\<bar> \<le> 1 / 200" by simp
  with b show ?thesis unfolding py_round2_def by blast
qed

lemma clamp_range: "0 \<le> clamp x 0 100 \<and> clamp x 0 100 \<le> 100"
  by (simp add: clamp_def)

lemma band_order: "fl 0.15 \<le> fl 0.25" "fl 0.20 \<le> fl 0.25"
  by code_simp+

lemma deep_branch:
  "(if fl 0.15 \<le> p \<and> p \<le> fl 0.25 then 25
    else if p > fl 0.25 then max 0 (fsub 25 (fmul (fsub p (fl 0.25)) 50))
    else fmul (fdiv p (fl 0.15)) 25) = spec_band_score 0.15 0.25 p"
  using band_order(1) by (auto simp: spec_band_score_def)

lemma rem_branch:
  "(if fl 0.20 \<le> p \<and> p \<le> fl 0.25 then 25
    else if p > fl 0.25 then max 0 (fsub 25 (fmul (fsub p (fl 0.25)) 50))
    else fmul (fdiv p (fl 0.20)) 25) = spec_band_score 0.20 0.25 p"
  using band_order(2) by (auto simp: spec_band_score_def)

lemma light_branch:
  "(if fl 0.45 \<le> p \<and> p \<le> fl 0.55 then 20
    else max 0 (fsub 20 (fmul \<bar>fsub p (fl 0.50)\<bar> 40))) = spec_light_score p"
  by (simp add: spec_light_score_def)

lemma duration_branch:
  assumes "0 < d"
  shows "(if 7 \<le> d \<and> d \<le> 9 then 20
    else if d < 7 then max 0 (fmul (fdiv d 7) 20)
    else max 0 (fsub 20 (fmul (fsub d 9) 5))) = spec_duration_score d"
proof -
  have "0 \<le> fdiv d 7" unfolding fdiv_def using assms by (intro fl_nonneg) simp
  then have "0 \<le> fmul (fdiv d 7) 20" unfolding fmul_def by (intro fl_nonneg) simp
  then show ?thesis by (simp add: spec_duration_score_def)
qed

lemma clamp_max_min: "max 0 (min 100 x) = clamp x 0 100"
  by (simp add: clamp_def max_def min_def)

lemma score_refines:
  assumes "phases \<noteq> []" "0 < duration"
  shows "calculate_sleep_score phases duration =
         spec_sleep_score (phase_fraction DEEP phases) (phase_fraction REM phases)
           (phase_fraction LIGHT phases) (phase_fraction AWAKE phases) duration"
proof -
  have d: "(duration = 0 \<or> length phases = 0) = False" using assms by auto
  show ?thesis
    unfolding calculate_sleep_score_def Let_def deep_branch rem_branch light_branch
      duration_branch [OF assms(2)] clamp_max_min spec_sleep_score_def spec_clamped_sum_def
      phase_fraction_def d if_False
    by (rule refl)
qed

lemma score_rounded:
  "\<exists>n. spec_sleep_score dp rp lp ap duration = fl (of_int n / 100) \<and> 0 \<le> n \<and> n \<le> 10000 \<and>
       \<bar>of_int n / 100 - spec_clamped_sum dp rp lp ap duration\<bar> \<le> 1 / 200"
  unfolding spec_sleep_score_def
  by (rule py_round2_pin) (simp_all add: spec_clamped_sum_def clamp_range)

lemma score_spec_example: "spec_sleep_score (fl 0.20) (fl 0.22) (fl 0.50) 0 8 = 90"
  by code_simp

lemma score_code_example:
  "calculate_sleep_score
     (replicate 10 \<lparr>phase = ''deep''\<rparr> @ replicate 11 \<lparr>phase = ''rem''\<rparr>
      @ replicate 25 \<lparr>phase = ''light''\<rparr> @ replicate 4 \<lparr>phase = ''unknown''\<rparr>) 8 = 90"
  by code_simp

lemma score_float_example:
  "calculate_sleep_score (replicate 23 \<lparr>phase = ''light''\<rparr> @ [\<lparr>phase = ''rem''\<rparr>]) 8
     = fl 26.87"
  by code_simp


text \<open>
  Claim C3. For a non-empty phase list and a positive duration the score computed by
  \<open>calculate_sleep_score\<close> is the specified one: the deep, REM, light and duration
  sub-scores added up, minus \<open>min (awake_pct * 100) 10\<close>, clamped to \<open>[0, 100]\<close> and
  rounded to two decimals, every operation in float arithmetic. The result is the float
  nearest to \<open>n / 100\<close> for an integer \<open>n\<close> between 0 and 10000 with \<open>n / 100\<close> within
  \<open>0.005\<close> of the clamped sum. At \<open>deep_pct = 0.20\<close>, \<open>rem_pct = 0.22\<close>,
  \<open>light_pct = 0.50\<close>, \<open>awake_pct = 0\<close> and 8 hours the specified score is 90, and so is
  the computed score of a list of 50 entries with those fractions (10 deep, 11 REM,
  25 light and 4 entries of no counted phase). For 23 light entries and one REM entry
  at 8 hours the clamped float sum lies just below 26.875 and the score is the float
  26.87.
\<close>

theorem calculate_sleep_score_formula:
  "(phases \<noteq> [] \<and> 0 < duration \<longrightarrow>
      calculate_sleep_score phases duration =
        spec_sleep_score (phase_fraction DEEP phases) (phase_fraction REM phases)
          (phase_fraction LIGHT phases) (phase_fraction AWAKE phases) duration \<and>
      (\<exists>n. calculate_sleep_score phases duration = fl (of_int n / 100) \<and>
           0 \<le> n \<and> n \<le> 10000 \<and>
           \<bar>of_int n / 100 -
             spec_clamped_sum (phase_fraction DEEP phases) (phase_fraction REM phases)
               (phase_fraction LIGHT phases) (phase_fraction AWAKE phases) duration\<bar>
             \<le> 1 / 200)) \<and>
   spec_sleep_score (fl 0.20) (fl 0.22) (fl 0.50) 0 8 = 90 \<and>
   calculate_sleep_score
     (replicate 10 \<lparr>phase = ''deep''\<rparr> @ replicate 11 \<lparr>phase = ''rem''\<rparr>
      @ replicate 25 \<lparr>phase = ''light''\<rparr> @ replicate 4 \<lparr>phase = ''unknown''\<rparr>) 8 = 90 \<and>
   calculate_sleep_score (replicate 23 \<lparr>phase = ''light''\<rparr> @ [\<lparr>phase = ''rem''\<rparr>]) 8
     = fl 26.87"
proof (intro conjI impI)
  assume h: "phases \<noteq> [] \<and> 0 < duration"
  then show eq: "calculate_sleep_score phases duration =
        spec_sleep_score (phase_fraction DEEP phases) (phase_fraction REM phases)
          (phase_fraction LIGHT phases) (phase_fraction AWAKE phases) duration"
    by (simp add: score_refines)
  show "\<exists>n. calculate_sleep_score phases duration = fl (of_int n / 100) \<and>
           0 \<le> n \<and> n \<le> 10000 \<and>
           \<bar>of_int n / 100 -
             spec_clamped_sum (phase_fraction DEEP phases) (phase_fraction REM phases)
               (phase_fraction LIGHT phases) (phase_fraction AWAKE phases) duration\<bar>
             \<le> 1 / 200"
    unfolding eq by (rule score_rounded)
qed (rule score_spec_example score_code_example score_float_example)+

theorem calculate_sleep_score_formula_witness:
  "[\<lparr>phase = ''deep''\<rparr>, \<lparr>phase = ''light''\<rparr>] \<noteq> [] \<and> (0::rat) < 8 \<and>
   calculate_sleep_score [\<lparr>phase = ''deep''\<rparr>, \<lparr>phase = ''light''\<rparr>] 8 =
     spec_sleep_score (phase_fraction DEEP [\<lparr>phase = ''deep''\<rparr>, \<lparr>phase = ''light''\<rparr>])
       (phase_fraction REM [\<lparr>phase = ''deep''\<rparr>, \<lparr>phase = ''light''\<rparr>])
       (phase_fraction LIGHT [\<lparr>phase = ''deep''\<rparr>, \<lparr>phase = ''light''\<rparr>])
       (phase_fraction AWAKE [\<lparr>phase = ''deep''\<rparr>, \<lparr>phase = ''light''\<rparr>]) 8 \<and>
   calculate_sleep_score [\<lparr>phase = ''deep''\<rparr>, \<lparr>phase = ''light''\<rparr>] 8 = 105 / 2"
proof -
  have h: "[\<lparr>phase = ''deep''\<rparr>, \<lparr>phase = ''light''\<rparr>] \<noteq> [] \<and> (0::rat) < 8" by simp
  have v: "calculate_sleep_score [\<lparr>phase = ''deep''\<rparr>, \<lparr>phase = ''light''\<rparr>] 8 = 105 / 2"
    by code_simp
  from calculate_sleep_score_formula [of "[\<lparr>phase = ''deep''\<rparr>, \<lparr>phase = ''light''\<rparr>]" 8,
      THEN conjunct1, THEN mp, OF h] h v
  show ?thesis by blast
qed

subsection \<open>Order of the recommendations\<close>

lemma append_rule:
  "(if c then r @ [a] else if d then r @ [b] else r) =
   r @ (if c then [a] else if d then [b] else [])"
  by simp

lemma append_rule1:
  "(if c then r @ [a] else r) = r @ (if c then [a] else [])"
  by simp

lemma append_rule_else:
  "(if c then r @ [a] else r @ ys) = r @ (if c then [a] else ys)"
  by simp

lemma singleton_if: "(if c then [a] else [b]) = [if c then a else b]"
  by simp

lemma overall_rule:
  "(if c1 then [] @ [a] else if c2 then [] @ [b] else if c3 then [] @ [c] else [] @ [d]) =
   [if c1 then a else if c2 then b else if c3 then c else d]"
  by simp

lemma recommendations_closed_form:
  assumes "phases \<noteq> []"
  shows "generate_recommendations score phases =
     [if score \<ge> 85 then Excellent else if score \<ge> 70 then Good
      else if score \<ge> 50 then Fair else Poor]
     @ (if pct DEEP phases < 0.13 then [LowDeep]
        else if pct DEEP phases > 0.30 then [HighDeep] else [])
     @ (if pct REM phases < 0.15 then [LowRem]
        else if pct REM phases > 0.30 then [HighRem] else [])
     @ (if pct AWAKE phases > 0.10 then [FrequentAwakenings]
        else if pct AWAKE phases > 0.05 then [SomeAwakenings] else [])
     @ (if pct LIGHT phases < 0.35 then [LowLight]
        else if pct LIGHT phases > 0.65 then [HighLight] else [])
     @ (if score < 70 then [GeneralTips] else [])"
proof -
  have l: "(length phases = 0) = False" using assms by simp
  show ?thesis
    unfolding generate_recommendations_def pct_def
    by (simp only: Let_def l if_False append_rule append_rule1 append_rule_else overall_rule
        append_assoc append_Nil singleton_if)
qed


lemma rule_of_part:
  "rule_of a = r \<Longrightarrow> rule_of b = r \<Longrightarrow>
   map rule_of (if c then [a] else if d then [b] else []) = (if c \<or> d then [r] else [])"
  by simp

lemma rule_of_overall:
  "map rule_of [if c1 then Excellent else if c2 then Good else if c3 then Fair else Poor]
   = [OverallRule]"
  by simp

lemma rule_of_tips:
  "map rule_of (if c then [GeneralTips] else []) = (if c then [TipsRule] else [])"
  by simp

lemma recommendations_rule_order:
  assumes "phases \<noteq> []"
  shows "map rule_of (generate_recommendations score phases) =
     [OverallRule]
     @ (if pct DEEP phases < 0.13 \<or> pct DEEP phases > 0.30 then [DeepRule] else [])
     @ (if pct REM phases < 0.15 \<or> pct REM phases > 0.30 then [RemRule] else [])
     @ (if pct AWAKE phases > 0.10 \<or> pct AWAKE phases > 0.05 then [AwakeRule] else [])
     @ (if pct LIGHT phases < 0.35 \<or> pct LIGHT phases > 0.65 then [LightRule] else [])
     @ (if score < 70 then [TipsRule] else [])"
  unfolding recommendations_closed_form [OF assms] map_append rule_of_overall rule_of_tips
  by (simp only: rule_of_part [of LowDeep DeepRule HighDeep] rule_of_part [of LowRem RemRule HighRem]
      rule_of_part [of FrequentAwakenings AwakeRule SomeAwakenings]
      rule_of_part [of LowLight LightRule HighLight] rule_of.simps)

text \<open>
  Claim C5. For an empty phase list the result is the single insufficient-data message.
  Otherwise the result is one overall-score message, then at most one deep-sleep
  message, then at most one REM message, then at most one awake message, then at most
  one light-sleep message, then the general tips exactly when the score is below 70;
  each of the four threshold rules looks at its own fraction only.
\<close>

theorem generate_recommendations_order:
  "generate_recommendations score ([] :: 'a phase_dict_scheme list) = [NotEnoughData] \<and>
   ((phases :: 'a phase_dict_scheme list) \<noteq> [] \<longrightarrow>
      generate_recommendations score phases =
        [if score \<ge> 85 then Excellent else if score \<ge> 70 then Good
         else if score \<ge> 50 then Fair else Poor]
        @ (if pct DEEP phases < 0.13 then [LowDeep]
           else if pct DEEP phases > 0.30 then [HighDeep] else [])
        @ (if pct REM phases < 0.15 then [LowRem]
           else if pct REM phases > 0.30 then [HighRem] else [])
        @ (if pct AWAKE phases > 0.10 then [FrequentAwakenings]
           else if pct AWAKE phases > 0.05 then [SomeAwakenings] else [])
        @ (if pct LIGHT phases < 0.35 then [LowLight]
           else if pct LIGHT phases > 0.65 then [HighLight] else [])
        @ (if score < 70 then [GeneralTips] else []) \<and>
      map rule_of (generate_recommendations score phases) =
        [OverallRule]
        @ (if pct DEEP phases < 0.13 \<or> pct DEEP phases > 0.30 then [DeepRule] else [])
        @ (if pct REM phases < 0.15 \<or> pct REM phases > 0.30 then [RemRule] else [])
        @ (if pct AWAKE phases > 0.10 \<or> pct AWAKE phases > 0.05 then [AwakeRule] else [])
        @ (if pct LIGHT phases < 0.35 \<or> pct LIGHT phases > 0.65 then [LightRule] else [])
        @ (if score < 70 then [TipsRule] else []))"
proof (intro conjI impI)
  show "generate_recommendations score ([] :: 'a phase_dict_scheme list) = [NotEnoughData]"
    by (simp add: generate_recommendations_def)
qed (rule recommendations_closed_form recommendations_rule_order, assumption)+

lemma pct_two:
  "pct name [\<lparr>phase = a\<rparr>, \<lparr>phase = b\<rparr>] =
   ((if a = name then 1 else 0) + (if b = name then 1 else 0)) / 2"
  by (simp add: pct_def count_phase_def)

theorem generate_recommendations_order_witness:
  "[\<lparr>phase = ''deep''\<rparr>, \<lparr>phase = ''light''\<rparr>] \<noteq> [] \<and>
   generate_recommendations 60 [\<lparr>phase = ''deep''\<rparr>, \<lparr>phase = ''light''\<rparr>]
     = [Fair, HighDeep, LowRem, GeneralTips] \<and>
   map rule_of (generate_recommendations 60 [\<lparr>phase = ''deep''\<rparr>, \<lparr>phase = ''light''\<rparr>])
     = [OverallRule, DeepRule, RemRule, TipsRule]"
  using generate_recommendations_order [of 60 "[\<lparr>phase = ''deep''\<rparr>, \<lparr>phase = ''light''\<rparr>]"]
  by (simp add: pct_two DEEP_def REM_def LIGHT_def AWAKE_def)

subsection \<open>The real-time estimate: helper facts\<close>

lemma argmax_unique:
  assumes "k < length xs" "\<forall>j<length xs. xs ! j \<le> xs ! k" "\<forall>j<k. xs ! j < xs ! k"
  shows "argmax xs = Inr k"
proof -
  from assms(1) have "xs \<noteq> []" by auto
  then obtain k' where k': "argmax xs = Inr k'" using argmax_nonempty by blast
  from argmax_first_max [OF k']
  have b: "k' < length xs" and m: "\<forall>j<length xs. xs ! j \<le> xs ! k'"
    and f: "\<forall>j<k'. xs ! j < xs ! k'" by auto
  have "\<not> k < k'"
  proof
    assume "k < k'"
    then have "xs ! k < xs ! k'" using f by blast
    moreover have "xs ! k' \<le> xs ! k" using assms(2) b by blast
    ultimately show False by simp
  qed
  moreover have "\<not> k' < k"
  proof
    assume "k' < k"
    then have "xs ! k' < xs ! k" using assms(3) by blast
    moreover have "xs ! k \<le> xs ! k'" using m assms(1) by blast
    ultimately show False by simp
  qed
  ultimately show ?thesis using k' by simp
qed

lemma phase_map_dom: "phase_map k = Some name \<Longrightarrow> k < 4"
  by (auto simp: phase_map_def split: if_splits)

lemma first_four:
  "j < 4 \<Longrightarrow> [p ! 0, p ! 1, p ! 2, p ! 3] ! j = p ! (j::nat)"
  by (auto simp: less_Suc_eq numeral_eq_Suc)

lemma format_prediction_argmax:
  assumes "format_prediction pred = Inr r"
  shows "\<exists>k. argmax [awake (probabilities r), light (probabilities r),
                      deep (probabilities r), rem (probabilities r)] = Inr k \<and>
             phase_map k = Some (phase r) \<and>
             confidence r = [awake (probabilities r), light (probabilities r),
                             deep (probabilities r), rem (probabilities r)] ! k"
proof -
  from assms obtain k name where k: "argmax pred = Inr k"
    and name: "phase_map k = Some name" and len: "4 \<le> length pred"
    and r: "r = \<lparr>phase = name, confidence = pred ! k,
                 probabilities = \<lparr>awake = pred ! 0, light = pred ! 1,
                                  deep = pred ! 2, rem = pred ! 3\<rparr>\<rparr>"
    by (auto simp: format_prediction_def split: sum.splits option.splits if_splits)
  let ?q = "[pred ! 0, pred ! 1, pred ! 2, pred ! 3]"
  have k4: "k < 4" using name by (rule phase_map_dom)
  from argmax_first_max [OF k]
  have m: "\<forall>j<length pred. pred ! j \<le> pred ! k" and f: "\<forall>j<k. pred ! j < pred ! k" by auto
  have "argmax ?q = Inr k"
  proof (rule argmax_unique)
    show "k < length ?q" using k4 by simp
    show "\<forall>j<length ?q. ?q ! j \<le> ?q ! k"
    proof (intro allI impI)
      fix j assume "j < length ?q"
      then have j4: "j < 4" by simp
      then have "pred ! j \<le> pred ! k" using m len by simp
      then show "?q ! j \<le> ?q ! k" by (simp only: first_four [OF j4] first_four [OF k4])
    qed
    show "\<forall>j<k. ?q ! j < ?q ! k"
    proof (intro allI impI)
      fix j assume jk: "j < k"
      then have j4: "j < 4" using k4 by simp
      have "pred ! j < pred ! k" using f jk by blast
      then show "?q ! j < ?q ! k" by (simp only: first_four [OF j4] first_four [OF k4])
    qed
  qed
  moreover have "pred ! k = ?q ! k" by (simp only: first_four [OF k4])
  ultimately show ?thesis using name r by simp
qed


lemma length_last_n: "n \<le> length xs \<Longrightarrow> 0 < n \<Longrightarrow> length (last_n n xs) = n"
  by (simp add: last_n_def)

lemma length_last_n_ge: "n \<le> length xs \<Longrightarrow> n \<le> length (last_n n xs)"
  by (simp add: last_n_def)

lemma format_prediction_errors:
  "format_prediction pred = Inl e \<Longrightarrow> e \<in> {ValueError, KeyError, IndexError}"
  by (auto simp: format_prediction_def argmax_def split: sum.splits option.splits if_splits list.splits)

lemma predict_realtime_not_need_samples:
  assumes "sequence_length m \<le> length recent_data"
  shows "predict_realtime m recent_data \<noteq> Inl (NeedSamples n)"
proof
  assume a: "predict_realtime m recent_data = Inl (NeedSamples n)"
  have nl: "\<not> length recent_data < sequence_length m" using assms by simp
  show False
  proof (cases "scaler m")
    case None
    with a nl show False by (simp add: predict_realtime_def)
  next
    case (Some transform)
    show False
    proof (cases "reshape_to (sequence_length m) (n_features m)
                    (transform (prepare_features (recent_sequence m recent_data)))")
      case (Inl e)
      then have "e = ValueError" by (auto simp: reshape_to_def Let_def split: if_splits)
      with a nl Some Inl show False by (simp add: predict_realtime_def)
    next
      case (Inr sequence)
      show False
      proof (cases "model m")
        case None
        with a nl Some Inr show False by (simp add: predict_realtime_def)
      next
        case net: (Some net)
        with a nl Some Inr have "format_prediction (net sequence) = Inl (NeedSamples n)"
          by (simp add: predict_realtime_def)
        from format_prediction_errors [OF this] show False by simp
      qed
    qed
  qed
qed

lemma predict_current_phase_short:
  "length sensor_data < 60 \<Longrightarrow>
   predict_current_phase env st now sensor_data =
     Inl (HTTPException 400 (NeedAtLeast60 (length sensor_data)))"
  by (simp add: predict_current_phase_def)

lemma sample_magnitude_error: "sample_magnitude env d = Inl e \<Longrightarrow> e = OverflowError"
  by (auto simp: sample_magnitude_def split: option.splits)

lemma magnitudes_loop_error: "magnitudes_loop env ds = Inl e \<Longrightarrow> e = OverflowError"
  by (induction ds) (auto split: sum.splits dest: sample_magnitude_error)

lemma magnitudes_loop_values:
  "magnitudes_loop env ds = Inr ms \<Longrightarrow>
   length ms = length ds \<and> (\<forall>i<length ds. sample_magnitude env (ds ! i) = Inr (ms ! i))"
proof (induction ds arbitrary: ms)
  case Nil
  then show ?case by simp
next
  case (Cons d ds)
  from Cons.prems obtain m rest where m: "sample_magnitude env d = Inr m"
    and rest: "magnitudes_loop env ds = Inr rest" and ms: "ms = m # rest"
    by (auto split: sum.splits)
  from Cons.IH [OF rest] have len: "length rest = length ds"
    and val: "\<forall>i<length ds. sample_magnitude env (ds ! i) = Inr (rest ! i)" by simp_all
  show ?case
  proof (intro conjI allI impI)
    show "length ms = length (d # ds)" using ms len by simp
    fix i assume "i < length (d # ds)"
    then show "sample_magnitude env ((d # ds) ! i) = Inr (ms ! i)"
      using m val ms by (cases i) simp_all
  qed
qed

lemma magnitudes_loop_defined:
  "\<forall>d\<in>set ds. \<exists>m. sample_magnitude env d = Inr m \<Longrightarrow> \<exists>ms. magnitudes_loop env ds = Inr ms"
  by (induction ds) auto

lemma fallback_response_error:
  "fallback_response env now sensor_data = Inl e \<Longrightarrow>
   e = OverflowError \<and> fallback_movements env sensor_data = Inl OverflowError"
  by (auto simp: fallback_response_def fallback_movements_def Let_def
      split: sum.splits dest: magnitudes_loop_error)

lemma fallback_response_value:
  "fallback_movements env sensor_data = Inr movements \<Longrightarrow>
   fallback_response env now sensor_data =
     Inr \<lparr>current_phase = fallback_phase (np_mean env movements), response_confidence = 0.7,
          response_probabilities = \<lparr>awake = 0.25, light = 0.25, deep = 0.25, rem = 0.25\<rparr>,
          is_light_sleep = (fallback_phase (np_mean env movements) = ''light''),
          response_timestamp = now\<rparr>"
  by (simp add: fallback_response_def Let_def)

lemma predict_current_phase_not_400:
  assumes "60 \<le> length sensor_data"
  shows "predict_current_phase env st now sensor_data \<noteq> Inl (HTTPException 400 d)"
proof
  assume a: "predict_current_phase env st now sensor_data = Inl (HTTPException 400 d)"
  have nl: "\<not> length sensor_data < 60" using assms by simp
  show False
  proof (cases "model_ready st")
    case (Inl e)
    then have "e = AttributeError"
      by (auto simp: model_ready_def split: if_splits option.splits)
    with a nl Inl show False by (simp add: predict_current_phase_def)
  next
    case (Inr ready)
    show False
    proof (cases ready)
      case True
      with a nl Inr show False
        by (auto simp: predict_current_phase_def Let_def split: option.splits sum.splits)
    next
      case False
      with a nl Inr have "fallback_response env now sensor_data = Inl (HTTPException 400 d)"
        by (simp add: predict_current_phase_def)
      from fallback_response_error [OF this] show False by simp
    qed
  qed
qed

lemma predict_current_phase_fallback:
  assumes "60 \<le> length sensor_data" "model_ready st = Inr False"
  shows "predict_current_phase env st now sensor_data = fallback_response env now sensor_data"
  using assms by (simp add: predict_current_phase_def)

lemma predict_current_phase_model:
  assumes "model_ready st = Inr True" "predict_current_phase env st now sensor_data = Inr r"
  shows "\<exists>m p. lstm_model st = Some m \<and>
           predict_realtime m (map (\<lambda>d. [accel_x d, accel_y d, accel_z d]) (last_n 60 sensor_data))
             = Inr p \<and>
           r = \<lparr>current_phase = phase p, response_confidence = confidence p,
                response_probabilities = probabilities p,
                is_light_sleep = (phase p = ''light''), response_timestamp = now\<rparr>"
  using assms
  by (auto simp: predict_current_phase_def Let_def split: sum.splits option.splits if_splits)

lemma fallback_movements_values:
  assumes "60 \<le> length sensor_data" "fallback_movements env sensor_data = Inr movements"
  shows "length movements = 60 \<and>
         (\<forall>i<60. sample_magnitude env (drop (length sensor_data - 60) sensor_data ! i)
                   = Inr (movements ! i))"
proof -
  have l: "last_n 60 sensor_data = drop (length sensor_data - 60) sensor_data"
    by (simp add: last_n_def)
  have len: "length (drop (length sensor_data - 60) sensor_data) = 60" using assms(1) by simp
  from assms(2) have "magnitudes_loop env (drop (length sensor_data - 60) sensor_data) = Inr movements"
    by (simp add: fallback_movements_def l)
  from magnitudes_loop_values [OF this] show ?thesis unfolding len by blast
qed

lemma float_literal_bounds:
  "float_literal 0.4 < 9" "0 < float_literal 0.08" "0 \<le> float_literal 0.4"
proof -
  have a: "fl 0.4 < 9" "0 < fl 0.08" "0 \<le> fl 0.4" by code_simp+
  have "(of_rat (fl 0.4) :: real) < of_rat 9" using a(1) by (simp only: of_rat_less)
  then show "float_literal 0.4 < 9" by (simp add: float_literal_def)
  have "(of_rat 0 :: real) < of_rat (fl 0.08)" using a(2) by (simp only: of_rat_less)
  then show "0 < float_literal 0.08" by (simp add: float_literal_def)
  have "(of_rat 0 :: real) \<le> of_rat (fl 0.4)" using a(3) by (simp only: of_rat_less_eq)
  then show "0 \<le> float_literal 0.4" by (simp add: float_literal_def)
qed

lemma fallback_phase_nine: "fallback_phase 9 = ''awake''"
  using float_literal_bounds(1) by (simp add: fallback_phase_def)

lemma fallback_phase_zero: "fallback_phase 0 = ''deep''"
  using float_literal_bounds(2,3) by (simp add: fallback_phase_def)

lemma sqrt_nine: "sqrt (0\<^sup>2 + 0\<^sup>2 + 9\<^sup>2) = (9::real)"
proof -
  have "sqrt ((9::real)\<^sup>2) = 9" by (simp only: real_sqrt_abs abs_numeral)
  moreover have "(0::real)\<^sup>2 + 0\<^sup>2 + 9\<^sup>2 = 9\<^sup>2" by simp
  ultimately show ?thesis by simp
qed

lemma sample_magnitude_nine: "sample_magnitude exact_numerics (sample 0 0 9) = Inr 9"
  by (simp add: sample_magnitude_def exact_numerics_def sample_def sqrt_nine)

lemma sample_magnitude_zero: "sample_magnitude exact_numerics (sample 0 0 0) = Inr 0"
  by (simp add: sample_magnitude_def exact_numerics_def sample_def)

lemma magnitudes_loop_replicate:
  "sample_magnitude env d = Inr m \<Longrightarrow> magnitudes_loop env (replicate n d) = Inr (replicate n m)"
  by (induction n) simp_all

lemma fallback_movements_replicate:
  "sample_magnitude env d = Inr m \<Longrightarrow>
   fallback_movements env (replicate 60 d) = Inr (replicate 60 m)"
  by (simp add: fallback_movements_def last_n_def magnitudes_loop_replicate)

lemma np_mean_replicate: "0 < n \<Longrightarrow> np_mean exact_numerics (replicate n x) = x"
  by (simp add: exact_numerics_def sum_list_replicate)

lemma magnitude_zero: "magnitude [0, 0, 0] = 0"
  by (simp add: magnitude_def)

lemma prepare_features_still:
  "prepare_features (replicate n [0, 0, 0]) = replicate n [0, 0, 0, 0]"
  by (simp add: prepare_features_def magnitude_zero)

lemma reshape_to_still:
  "reshape_to 60 4 (replicate 60 [0, 0, 0, 0::real]) = Inr (regroup 60 4 (concat (replicate 60 [0, 0, 0, 0])))"
  by (simp add: reshape_to_def Let_def length_concat sum_list_replicate)

lemma format_prediction_example:
  "format_prediction [0.1, 0.2, 0.3, 0.4] =
     Inr \<lparr>phase = ''rem'', confidence = 0.4,
          probabilities = \<lparr>awake = 0.1, light = 0.2, deep = 0.3, rem = 0.4\<rparr>\<rparr>"
  by (simp add: format_prediction_def argmax_def phase_map_def)

lemma predict_realtime_still:
  assumes "sequence_length m = 60" "n_features m = 4" "scaler m = Some (\<lambda>x. x)"
    "model m = Some (\<lambda>_. v)"
  shows "predict_realtime m (replicate 60 [0, 0, 0]) = format_prediction v"
  using assms
  by (simp add: predict_realtime_def recent_sequence_def last_n_def prepare_features_still
      reshape_to_still)


lemma predict_untrained: "\<not> is_trained m \<Longrightarrow> predict m accel_data = Inl NotTrained"
  by (simp add: predict_def)

lemma predict_realtime_is_trained:
  "predict_realtime (m\<lparr>is_trained := b\<rparr>) recent_data = predict_realtime m recent_data"
  by (simp add: predict_realtime_def recent_sequence_def cong: option.case_cong sum.case_cong)

lemma predict_realtime_constant_net:
  "predict_realtime (constant_net b) (replicate 60 [0, 0, 0]) =
     Inr \<lparr>phase = ''rem'', confidence = 0.4,
          probabilities = \<lparr>awake = 0.1, light = 0.2, deep = 0.3, rem = 0.4\<rparr>\<rparr>"
proof -
  have "predict_realtime (constant_net b) (replicate 60 [0, 0, 0])
        = format_prediction [0.1, 0.2, 0.3, 0.4]"
    by (rule predict_realtime_still) (simp_all add: constant_net_def)
  then show ?thesis by (simp only: format_prediction_example)
qed

lemma model_ready_no_model: "model_ready no_model = Inr False"
  by (simp add: model_ready_def no_model_def)

lemma model_ready_with_model: "model_ready (with_model m) = Inr (is_trained m)"
  by (simp add: model_ready_def with_model_def)

lemma predict_current_phase_constant_net:
  "predict_current_phase env (with_model (constant_net True)) now (replicate 60 (sample 0 0 0)) =
     Inr \<lparr>current_phase = ''rem'', response_confidence = 0.4,
          response_probabilities = \<lparr>awake = 0.1, light = 0.2, deep = 0.3, rem = 0.4\<rparr>,
          is_light_sleep = False, response_timestamp = now\<rparr>"
proof -
  have "map (\<lambda>d. [accel_x d, accel_y d, accel_z d]) (last_n 60 (replicate 60 (sample 0 0 0)))
        = replicate 60 [0, 0, 0]"
    by (simp add: last_n_def sample_def)
  moreover have "model_ready (with_model (constant_net True)) = Inr True"
    by (simp add: model_ready_with_model constant_net_def)
  moreover have "lstm_model (with_model (constant_net True)) = Some (constant_net True)"
    by (simp add: with_model_def)
  ultimately show ?thesis
    by (simp add: predict_current_phase_def predict_realtime_constant_net)
qed



subsection \<open>The fallback estimator\<close>

lemma magnitudes_loop_raised:
  "magnitudes_loop env ds = Inl e \<Longrightarrow> \<exists>d\<in>set ds. sample_magnitude env d = Inl OverflowError"
  by (induction ds) (auto split: sum.splits dest: sample_magnitude_error)

text \<open>
  Sixty samples of acceleration \<open>(0, 0, 9)\<close> have magnitude 9 each and magnitude mean 9,
  and the fallback answers \<open>awake\<close> for them, not \<open>deep\<close>: the mean is compared with the
  thresholds as it is, no offset is taken off.
\<close>

theorem fallback_mean_nine_counterexample:
  "fallback_movements exact_numerics (replicate 60 (sample 0 0 9)) = Inr (replicate 60 9) \<and>
   np_mean exact_numerics (replicate 60 9) = 9 \<and>
   predict_current_phase exact_numerics no_model 0 (replicate 60 (sample 0 0 9)) =
     Inr \<lparr>current_phase = ''awake'', response_confidence = 0.7,
          response_probabilities = \<lparr>awake = 0.25, light = 0.25, deep = 0.25, rem = 0.25\<rparr>,
          is_light_sleep = False, response_timestamp = 0\<rparr>"
proof -
  have m: "fallback_movements exact_numerics (replicate 60 (sample 0 0 9)) = Inr (replicate 60 9)"
    by (rule fallback_movements_replicate) (rule sample_magnitude_nine)
  have mean: "np_mean exact_numerics (replicate 60 9) = 9" by (simp add: np_mean_replicate)
  have "predict_current_phase exact_numerics no_model 0 (replicate 60 (sample 0 0 9)) =
        fallback_response exact_numerics 0 (replicate 60 (sample 0 0 9))"
    by (rule predict_current_phase_fallback) (simp_all add: model_ready_no_model)
  also have "\<dots> = Inr \<lparr>current_phase = ''awake'', response_confidence = 0.7,
          response_probabilities = \<lparr>awake = 0.25, light = 0.25, deep = 0.25, rem = 0.25\<rparr>,
          is_light_sleep = False, response_timestamp = 0\<rparr>"
    unfolding fallback_response_value [OF m] mean fallback_phase_nine by simp
  finally show ?thesis using m mean by blast
qed

text \<open>
  Claim C4, amended. Without a trained classifier and with at least 60 samples, the
  endpoint computes the magnitude \<^verbatim>\<open>np.sqrt(x**2 + y**2 + z**2)\<close> of each of the last 60
  samples. If a square is out of range the request ends with that \<^verbatim>\<open>OverflowError\<close>.
  Otherwise it answers from \<^verbatim>\<open>np.mean\<close> of the 60 magnitudes: \<open>awake\<close> when the mean is
  above the float \<^verbatim>\<open>0.4\<close>, else \<open>deep\<close> below \<^verbatim>\<open>0.08\<close>, else \<open>light\<close> above \<^verbatim>\<open>0.15\<close>, else
  \<open>rem\<close>. When that mean is 9 the answer is \<open>awake\<close>. This holds for every numeric
  environment.
\<close>

theorem fallback_estimator_thresholds:
  "60 \<le> length sensor_data \<and> model_ready st = Inr False \<longrightarrow>
     (fallback_movements env sensor_data = Inl OverflowError \<and>
      predict_current_phase env st now sensor_data = Inl OverflowError \<and>
      (\<exists>d\<in>set (drop (length sensor_data - 60) sensor_data).
          sample_magnitude env d = Inl OverflowError)) \<or>
     (\<exists>movements r.
        fallback_movements env sensor_data = Inr movements \<and>
        length movements = 60 \<and>
        (\<forall>i<60. sample_magnitude env (drop (length sensor_data - 60) sensor_data ! i)
                  = Inr (movements ! i)) \<and>
        predict_current_phase env st now sensor_data = Inr r \<and>
        current_phase r =
          (if np_mean env movements > float_literal 0.4 then ''awake''
           else if np_mean env movements < float_literal 0.08 then ''deep''
           else if np_mean env movements > float_literal 0.15 then ''light''
           else ''rem'') \<and>
        (np_mean env movements = 9 \<longrightarrow> current_phase r = ''awake''))"
proof
  assume h: "60 \<le> length sensor_data \<and> model_ready st = Inr False"
  then have p: "predict_current_phase env st now sensor_data = fallback_response env now sensor_data"
    by (simp add: predict_current_phase_fallback)
  have l: "last_n 60 sensor_data = drop (length sensor_data - 60) sensor_data"
    by (simp add: last_n_def)
  show "(fallback_movements env sensor_data = Inl OverflowError \<and>
      predict_current_phase env st now sensor_data = Inl OverflowError \<and>
      (\<exists>d\<in>set (drop (length sensor_data - 60) sensor_data).
          sample_magnitude env d = Inl OverflowError)) \<or>
     (\<exists>movements r.
        fallback_movements env sensor_data = Inr movements \<and>
        length movements = 60 \<and>
        (\<forall>i<60. sample_magnitude env (drop (length sensor_data - 60) sensor_data ! i)
                  = Inr (movements ! i)) \<and>
        predict_current_phase env st now sensor_data = Inr r \<and>
        current_phase r =
          (if np_mean env movements > float_literal 0.4 then ''awake''
           else if np_mean env movements < float_literal 0.08 then ''deep''
           else if np_mean env movements > float_literal 0.15 then ''light''
           else ''rem'') \<and>
        (np_mean env movements = 9 \<longrightarrow> current_phase r = ''awake''))"
  proof (cases "fallback_movements env sensor_data")
    case (Inl e)
    then have loop: "magnitudes_loop env (drop (length sensor_data - 60) sensor_data) = Inl e"
      by (simp add: fallback_movements_def l)
    have e: "e = OverflowError" using loop by (rule magnitudes_loop_error)
    have "\<exists>d\<in>set (drop (length sensor_data - 60) sensor_data).
            sample_magnitude env d = Inl OverflowError"
      using loop by (rule magnitudes_loop_raised)
    moreover have "predict_current_phase env st now sensor_data = Inl OverflowError"
      unfolding p using Inl e by (simp add: fallback_response_def)
    ultimately show ?thesis using Inl e by blast
  next
    case (Inr movements)
    let ?r = "\<lparr>current_phase = fallback_phase (np_mean env movements), response_confidence = 0.7,
          response_probabilities = \<lparr>awake = 0.25, light = 0.25, deep = 0.25, rem = 0.25\<rparr>,
          is_light_sleep = (fallback_phase (np_mean env movements) = ''light''),
          response_timestamp = now\<rparr>"
    have r: "predict_current_phase env st now sensor_data = Inr ?r"
      unfolding p by (rule fallback_response_value) (rule Inr)
    have v: "length movements = 60 \<and>
         (\<forall>i<60. sample_magnitude env (drop (length sensor_data - 60) sensor_data ! i)
                   = Inr (movements ! i))"
      using h Inr by (intro fallback_movements_values) simp_all
    have ph: "current_phase ?r =
          (if np_mean env movements > float_literal 0.4 then ''awake''
           else if np_mean env movements < float_literal 0.08 then ''deep''
           else if np_mean env movements > float_literal 0.15 then ''light''
           else ''rem'')"
      by (simp add: fallback_phase_def)
    have nine: "np_mean env movements = 9 \<longrightarrow> current_phase ?r = ''awake''"
      by (simp add: fallback_phase_nine)
    show ?thesis using Inr r v ph nine by blast
  qed
qed

theorem fallback_estimator_thresholds_witness:
  "60 \<le> length (replicate 60 (sample 0 0 9)) \<and> model_ready no_model = Inr False \<and>
   fallback_movements exact_numerics (replicate 60 (sample 0 0 9)) = Inr (replicate 60 9) \<and>
   np_mean exact_numerics (replicate 60 9) = 9 \<and>
   (\<exists>r. predict_current_phase exact_numerics no_model 0 (replicate 60 (sample 0 0 9)) = Inr r \<and>
        current_phase r = ''awake'')"
proof -
  have h: "60 \<le> length (replicate 60 (sample 0 0 9)) \<and> model_ready no_model = Inr False"
    by (simp add: model_ready_no_model)
  have m: "fallback_movements exact_numerics (replicate 60 (sample 0 0 9)) = Inr (replicate 60 9)"
    by (rule fallback_movements_replicate) (rule sample_magnitude_nine)
  have mean: "np_mean exact_numerics (replicate 60 9) = 9" by (simp add: np_mean_replicate)
  from fallback_estimator_thresholds
    [of "replicate 60 (sample 0 0 9)" no_model exact_numerics 0, THEN mp, OF h]
  have "\<exists>movements r.
        fallback_movements exact_numerics (replicate 60 (sample 0 0 9)) = Inr movements \<and>
        predict_current_phase exact_numerics no_model 0 (replicate 60 (sample 0 0 9)) = Inr r \<and>
        (np_mean exact_numerics movements = 9 \<longrightarrow> current_phase r = ''awake'')"
    unfolding m by (elim disjE) (simp, blast)
  then obtain r where "predict_current_phase exact_numerics no_model 0
        (replicate 60 (sample 0 0 9)) = Inr r"
    and "np_mean exact_numerics (replicate 60 9) = 9 \<longrightarrow> current_phase r = ''awake''"
    unfolding m by auto
  with h m mean show ?thesis by blast
qed

subsection \<open>The length check of the real-time estimate\<close>

text \<open>
  Claim C6. With fewer than 60 samples the endpoint fails with status 400 (need at least
  60 data points), and \<open>predict_realtime\<close> fails with its need-samples error when given
  fewer than \<open>sequence_length\<close> rows. With 60 samples or more neither fails for that
  reason, and the window that is used has exactly 60 samples (for \<open>predict_realtime\<close>:
  at least \<open>sequence_length\<close> rows): nothing shorter is ever passed on.
\<close>

theorem realtime_length_check:
  "(length a < 60 \<longrightarrow>
      predict_current_phase env st now a = Inl (HTTPException 400 (NeedAtLeast60 (length a)))) \<and>
   (60 \<le> length b \<longrightarrow>
      predict_current_phase env st now b \<noteq> Inl (HTTPException 400 d) \<and>
      length (last_n 60 b) = 60) \<and>
   (length c < sequence_length m \<longrightarrow>
      predict_realtime m c = Inl (NeedSamples (sequence_length m))) \<and>
   (sequence_length m \<le> length e \<longrightarrow>
      predict_realtime m e \<noteq> Inl (NeedSamples n) \<and>
      sequence_length m \<le> length (recent_sequence m e))"
proof (intro conjI impI)
  show "predict_current_phase env st now a = Inl (HTTPException 400 (NeedAtLeast60 (length a)))"
    if "length a < 60" using that by (rule predict_current_phase_short)
  show "predict_current_phase env st now b \<noteq> Inl (HTTPException 400 d)" if "60 \<le> length b"
    using that by (rule predict_current_phase_not_400)
  show "length (last_n 60 b) = 60" if "60 \<le> length b"
    using that by (simp add: length_last_n)
  show "predict_realtime m c = Inl (NeedSamples (sequence_length m))"
    if "length c < sequence_length m" using that by (simp add: predict_realtime_def)
  show "predict_realtime m e \<noteq> Inl (NeedSamples n)" if "sequence_length m \<le> length e"
    using that by (rule predict_realtime_not_need_samples)
  show "sequence_length m \<le> length (recent_sequence m e)" if "sequence_length m \<le> length e"
    using that unfolding recent_sequence_def by (rule length_last_n_ge)
qed

theorem realtime_length_check_witness:
  "length (replicate 59 (sample 0 0 0)) < 60 \<and>
   predict_current_phase exact_numerics no_model 0 (replicate 59 (sample 0 0 0)) =
     Inl (HTTPException 400 (NeedAtLeast60 59)) \<and>
   60 \<le> length (replicate 60 (sample 0 0 0)) \<and>
   predict_current_phase exact_numerics no_model 0 (replicate 60 (sample 0 0 0)) \<noteq>
     Inl (HTTPException 400 (NeedAtLeast60 60)) \<and>
   length (last_n 60 (replicate 60 (sample 0 0 0))) = 60 \<and>
   length (replicate 59 [0, 0, 0::real]) < sequence_length (constant_net True) \<and>
   predict_realtime (constant_net True) (replicate 59 [0, 0, 0]) = Inl (NeedSamples 60) \<and>
   sequence_length (constant_net True) \<le> length (replicate 60 [0, 0, 0::real]) \<and>
   predict_realtime (constant_net True) (replicate 60 [0, 0, 0]) \<noteq> Inl (NeedSamples 60) \<and>
   60 \<le> length (recent_sequence (constant_net True) (replicate 60 [0, 0, 0::real]))"
proof -
  have sl: "sequence_length (constant_net True) = 60" by (simp add: constant_net_def)
  from realtime_length_check
    [of "replicate 59 (sample 0 0 0)" exact_numerics no_model 0 "replicate 60 (sample 0 0 0)"
        "NeedAtLeast60 60" "replicate 59 [0, 0, 0]" "constant_net True"
        "replicate 60 [0, 0, 0]" 60]
  show ?thesis by (simp add: sl)
qed

subsection \<open>Phase, confidence and probabilities of a prediction\<close>

lemma predict_current_phase_still:
  "predict_current_phase exact_numerics no_model 0 (replicate 60 (sample 0 0 0)) =
     Inr \<lparr>current_phase = ''deep'', response_confidence = 0.7,
          response_probabilities = \<lparr>awake = 0.25, light = 0.25, deep = 0.25, rem = 0.25\<rparr>,
          is_light_sleep = False, response_timestamp = 0\<rparr>"
proof -
  have m: "fallback_movements exact_numerics (replicate 60 (sample 0 0 0)) = Inr (replicate 60 0)"
    by (rule fallback_movements_replicate) (rule sample_magnitude_zero)
  have mean: "np_mean exact_numerics (replicate 60 0) = 0" by (simp add: np_mean_replicate)
  have "predict_current_phase exact_numerics no_model 0 (replicate 60 (sample 0 0 0)) =
        fallback_response exact_numerics 0 (replicate 60 (sample 0 0 0))"
    by (rule predict_current_phase_fallback) (simp_all add: model_ready_no_model)
  also have "\<dots> = Inr \<lparr>current_phase = ''deep'', response_confidence = 0.7,
          response_probabilities = \<lparr>awake = 0.25, light = 0.25, deep = 0.25, rem = 0.25\<rparr>,
          is_light_sleep = False, response_timestamp = 0\<rparr>"
    unfolding fallback_response_value [OF m] mean fallback_phase_zero by simp
  finally show ?thesis .
qed

lemma predict_current_phase_fallback_returned:
  assumes "model_ready st = Inr False" "predict_current_phase env st now sensor_data = Inr r"
  shows "\<exists>movements. fallback_movements env sensor_data = Inr movements \<and>
           r = \<lparr>current_phase = fallback_phase (np_mean env movements), response_confidence = 0.7,
                response_probabilities = \<lparr>awake = 0.25, light = 0.25, deep = 0.25, rem = 0.25\<rparr>,
                is_light_sleep = (fallback_phase (np_mean env movements) = ''light''),
                response_timestamp = now\<rparr>"
proof -
  have nl: "\<not> length sensor_data < 60"
    using assms(2) by (auto simp: predict_current_phase_short)
  then have p: "fallback_response env now sensor_data = Inr r"
    using assms by (simp add: predict_current_phase_fallback)
  show ?thesis
  proof (cases "fallback_movements env sensor_data")
    case (Inl e)
    then show ?thesis using p by (simp add: fallback_response_def)
  next
    case (Inr movements)
    then show ?thesis using p by (simp add: fallback_response_value)
  qed
qed

text \<open>
  On sixty motionless samples the fallback answers \<open>deep\<close> with confidence 0.7 and four
  probabilities of 0.25, whose argmax (ties to the lowest index) is class 0, \<open>awake\<close>.
\<close>

theorem fallback_argmax_counterexample:
  "predict_current_phase exact_numerics no_model 0 (replicate 60 (sample 0 0 0)) =
     Inr \<lparr>current_phase = ''deep'', response_confidence = 0.7,
          response_probabilities = \<lparr>awake = 0.25, light = 0.25, deep = 0.25, rem = 0.25\<rparr>,
          is_light_sleep = False, response_timestamp = 0\<rparr> \<and>
   argmax [0.25, 0.25, 0.25, 0.25 :: real] = Inr 0 \<and>
   phase_map 0 = Some ''awake''"
proof -
  have "argmax [0.25, 0.25, 0.25, 0.25 :: real] = Inr 0"
    by (simp add: argmax_def)
  moreover have "phase_map 0 = Some ''awake''" by (simp add: phase_map_def)
  ultimately show ?thesis by (simp only: predict_current_phase_still)
qed

text \<open>
  Claim C7, amended. Every prediction of the model path, from \<open>predict_realtime\<close> and
  from the endpoint when the classifier is trained, has as phase the name of the argmax
  of its four probabilities (first maximum, so ties go to the lowest class index) and as
  confidence the probability at that index. The fallback path returns the phase of the
  threshold rule with the fixed confidence 0.7 and four probabilities of 0.25: it
  returns that answer whenever the 60 magnitudes are computed, and every answer it
  returns has this form.
\<close>

theorem realtime_prediction_argmax:
  "(predict_realtime m recent_data = Inr p \<longrightarrow>
      (\<exists>k. argmax [awake (probabilities p), light (probabilities p),
                  deep (probabilities p), rem (probabilities p)] = Inr k \<and>
           phase_map k = Some (phase p) \<and>
           confidence p = [awake (probabilities p), light (probabilities p),
                           deep (probabilities p), rem (probabilities p)] ! k)) \<and>
   (model_ready st = Inr True \<and> predict_current_phase env st now sensor_data = Inr r \<longrightarrow>
      (\<exists>k. argmax [awake (response_probabilities r), light (response_probabilities r),
                  deep (response_probabilities r), rem (response_probabilities r)] = Inr k \<and>
           phase_map k = Some (current_phase r) \<and>
           response_confidence r =
             [awake (response_probabilities r), light (response_probabilities r),
              deep (response_probabilities r), rem (response_probabilities r)] ! k)) \<and>
   (model_ready st' = Inr False \<and> 60 \<le> length sensor_data' \<and>
    fallback_movements env sensor_data' = Inr movements' \<longrightarrow>
      (\<exists>r'. predict_current_phase env st' now sensor_data' = Inr r' \<and>
           current_phase r' = fallback_phase (np_mean env movements') \<and>
           response_confidence r' = 0.7 \<and>
           response_probabilities r' =
             \<lparr>awake = 0.25, light = 0.25, deep = 0.25, rem = 0.25\<rparr>)) \<and>
   (model_ready st'' = Inr False \<and> predict_current_phase env st'' now sensor_data'' = Inr r'' \<longrightarrow>
      (\<exists>movements. fallback_movements env sensor_data'' = Inr movements \<and>
           current_phase r'' = fallback_phase (np_mean env movements)) \<and>
      response_confidence r'' = 0.7 \<and>
      response_probabilities r'' = \<lparr>awake = 0.25, light = 0.25, deep = 0.25, rem = 0.25\<rparr>)"
proof (intro conjI impI)
  assume "predict_realtime m recent_data = Inr p"
  then have "\<exists>pred. format_prediction pred = Inr p"
    by (auto simp: predict_realtime_def Let_def split: if_splits option.splits sum.splits)
  then show "\<exists>k. argmax [awake (probabilities p), light (probabilities p),
                  deep (probabilities p), rem (probabilities p)] = Inr k \<and>
           phase_map k = Some (phase p) \<and>
           confidence p = [awake (probabilities p), light (probabilities p),
                           deep (probabilities p), rem (probabilities p)] ! k"
    using format_prediction_argmax by blast
next
  assume "model_ready st = Inr True \<and> predict_current_phase env st now sensor_data = Inr r"
  from predict_current_phase_model [OF conjunct1 [OF this] conjunct2 [OF this]]
  obtain m' p' where p': "predict_realtime m'
        (map (\<lambda>d. [accel_x d, accel_y d, accel_z d]) (last_n 60 sensor_data)) = Inr p'"
    and r: "r = \<lparr>current_phase = phase p', response_confidence = confidence p',
                response_probabilities = probabilities p',
                is_light_sleep = (phase p' = ''light''), response_timestamp = now\<rparr>"
    by blast
  from p' have "\<exists>pred. format_prediction pred = Inr p'"
    by (auto simp: predict_realtime_def Let_def split: if_splits option.splits sum.splits)
  then have "\<exists>k. argmax [awake (probabilities p'), light (probabilities p'),
                  deep (probabilities p'), rem (probabilities p')] = Inr k \<and>
           phase_map k = Some (phase p') \<and>
           confidence p' = [awake (probabilities p'), light (probabilities p'),
                           deep (probabilities p'), rem (probabilities p')] ! k"
    using format_prediction_argmax by blast
  then show "\<exists>k. argmax [awake (response_probabilities r), light (response_probabilities r),
                  deep (response_probabilities r), rem (response_probabilities r)] = Inr k \<and>
           phase_map k = Some (current_phase r) \<and>
           response_confidence r =
             [awake (response_probabilities r), light (response_probabilities r),
              deep (response_probabilities r), rem (response_probabilities r)] ! k"
    unfolding r by simp
next
  assume h: "model_ready st' = Inr False \<and> 60 \<le> length sensor_data' \<and>
    fallback_movements env sensor_data' = Inr movements'"
  then have "predict_current_phase env st' now sensor_data' = fallback_response env now sensor_data'"
    by (simp add: predict_current_phase_fallback)
  also have "\<dots> = Inr \<lparr>current_phase = fallback_phase (np_mean env movements'),
          response_confidence = 0.7,
          response_probabilities = \<lparr>awake = 0.25, light = 0.25, deep = 0.25, rem = 0.25\<rparr>,
          is_light_sleep = (fallback_phase (np_mean env movements') = ''light''),
          response_timestamp = now\<rparr>"
    using h by (intro fallback_response_value) simp
  finally show "\<exists>r'. predict_current_phase env st' now sensor_data' = Inr r' \<and>
           current_phase r' = fallback_phase (np_mean env movements') \<and>
           response_confidence r' = 0.7 \<and>
           response_probabilities r' =
             \<lparr>awake = 0.25, light = 0.25, deep = 0.25, rem = 0.25\<rparr>"
    by simp
next
  assume h: "model_ready st'' = Inr False \<and>
    predict_current_phase env st'' now sensor_data'' = Inr r''"
  from predict_current_phase_fallback_returned [OF conjunct1 [OF h] conjunct2 [OF h]]
  obtain movements where mv: "fallback_movements env sensor_data'' = Inr movements"
    and r: "r'' = \<lparr>current_phase = fallback_phase (np_mean env movements),
                response_confidence = 0.7,
                response_probabilities = \<lparr>awake = 0.25, light = 0.25, deep = 0.25, rem = 0.25\<rparr>,
                is_light_sleep = (fallback_phase (np_mean env movements) = ''light''),
                response_timestamp = now\<rparr>"
    by blast
  have "current_phase r'' = fallback_phase (np_mean env movements)" unfolding r by simp
  with mv show "\<exists>movements. fallback_movements env sensor_data'' = Inr movements \<and>
           current_phase r'' = fallback_phase (np_mean env movements)"
    by blast
  show "response_confidence r'' = 0.7" unfolding r by simp
  show "response_probabilities r'' = \<lparr>awake = 0.25, light = 0.25, deep = 0.25, rem = 0.25\<rparr>"
    unfolding r by simp
qed

theorem realtime_prediction_argmax_witness:
  "predict_realtime (constant_net True) (replicate 60 [0, 0, 0]) =
     Inr \<lparr>phase = ''rem'', confidence = 0.4,
          probabilities = \<lparr>awake = 0.1, light = 0.2, deep = 0.3, rem = 0.4\<rparr>\<rparr> \<and>
   model_ready (with_model (constant_net True)) = Inr True \<and>
   predict_current_phase exact_numerics (with_model (constant_net True)) 0
       (replicate 60 (sample 0 0 0)) =
     Inr \<lparr>current_phase = ''rem'', response_confidence = 0.4,
          response_probabilities = \<lparr>awake = 0.1, light = 0.2, deep = 0.3, rem = 0.4\<rparr>,
          is_light_sleep = False, response_timestamp = 0\<rparr> \<and>
   model_ready no_model = Inr False \<and> 60 \<le> length (replicate 60 (sample 0 0 0)) \<and>
   fallback_movements exact_numerics (replicate 60 (sample 0 0 0)) = Inr (replicate 60 0) \<and>
   predict_current_phase exact_numerics no_model 0 (replicate 60 (sample 0 0 0)) =
     Inr \<lparr>current_phase = ''deep'', response_confidence = 0.7,
          response_probabilities = \<lparr>awake = 0.25, light = 0.25, deep = 0.25, rem = 0.25\<rparr>,
          is_light_sleep = False, response_timestamp = 0\<rparr> \<and>
   (\<exists>k. argmax [0.1, 0.2, 0.3, 0.4 :: real] = Inr k \<and> phase_map k = Some ''rem'' \<and>
        0.4 = [0.1, 0.2, 0.3, 0.4 :: real] ! k) \<and>
   (\<exists>r'. predict_current_phase exact_numerics no_model 0 (replicate 60 (sample 0 0 0)) = Inr r' \<and>
        current_phase r' = fallback_phase (np_mean exact_numerics (replicate 60 0)) \<and>
        response_confidence r' = 0.7) \<and>
   (\<exists>movements. fallback_movements exact_numerics (replicate 60 (sample 0 0 0)) = Inr movements \<and>
        ''deep'' = fallback_phase (np_mean exact_numerics movements))"
proof -
  let ?p = "\<lparr>phase = ''rem'', confidence = 0.4,
          probabilities = \<lparr>awake = 0.1, light = 0.2, deep = 0.3, rem = 0.4\<rparr>\<rparr>"
  let ?r = "\<lparr>current_phase = ''rem'', response_confidence = 0.4,
          response_probabilities = \<lparr>awake = 0.1, light = 0.2, deep = 0.3, rem = 0.4\<rparr>,
          is_light_sleep = False, response_timestamp = 0\<rparr>"
  let ?f = "\<lparr>current_phase = ''deep'', response_confidence = 0.7,
          response_probabilities = \<lparr>awake = 0.25, light = 0.25, deep = 0.25, rem = 0.25\<rparr>,
          is_light_sleep = False, response_timestamp = 0\<rparr>"
  have a: "predict_realtime (constant_net True) (replicate 60 [0, 0, 0]) = Inr ?p"
    by (rule predict_realtime_constant_net)
  have b: "model_ready (with_model (constant_net True)) = Inr True"
    by (simp add: model_ready_with_model constant_net_def)
  have c: "predict_current_phase exact_numerics (with_model (constant_net True)) 0
             (replicate 60 (sample 0 0 0)) = Inr ?r"
    by (rule predict_current_phase_constant_net)
  have d: "model_ready no_model = Inr False \<and> 60 \<le> length (replicate 60 (sample 0 0 0))"
    by (simp add: model_ready_no_model)
  have m: "fallback_movements exact_numerics (replicate 60 (sample 0 0 0)) = Inr (replicate 60 0)"
    by (rule fallback_movements_replicate) (rule sample_magnitude_zero)
  have s: "predict_current_phase exact_numerics no_model 0 (replicate 60 (sample 0 0 0)) = Inr ?f"
    by (rule predict_current_phase_still)
  note inst = realtime_prediction_argmax
    [of "constant_net True" "replicate 60 [0, 0, 0]" ?p "with_model (constant_net True)"
        exact_numerics 0 "replicate 60 (sample 0 0 0)" ?r no_model "replicate 60 (sample 0 0 0)"
        "replicate 60 0" no_model "replicate 60 (sample 0 0 0)" ?f]
  from inst [THEN conjunct1, THEN mp, OF a]
  have e: "\<exists>k. argmax [0.1, 0.2, 0.3, 0.4 :: real] = Inr k \<and>
      phase_map k = Some ''rem'' \<and> 0.4 = [0.1, 0.2, 0.3, 0.4 :: real] ! k"
    by simp
  from d m have dm: "model_ready no_model = Inr False \<and>
      60 \<le> length (replicate 60 (sample 0 0 0)) \<and>
      fallback_movements exact_numerics (replicate 60 (sample 0 0 0)) = Inr (replicate 60 0)"
    by blast
  from inst [THEN conjunct2, THEN conjunct2, THEN conjunct1, THEN mp, OF dm]
  have f: "\<exists>r'. predict_current_phase exact_numerics no_model 0 (replicate 60 (sample 0 0 0)) = Inr r' \<and>
        current_phase r' = fallback_phase (np_mean exact_numerics (replicate 60 0)) \<and>
        response_confidence r' = 0.7"
    by (elim exE conjE) blast
  from d s have ds: "model_ready no_model = Inr False \<and>
      predict_current_phase exact_numerics no_model 0 (replicate 60 (sample 0 0 0)) = Inr ?f"
    by blast
  from inst [THEN conjunct2, THEN conjunct2, THEN conjunct2, THEN mp, OF ds]
  have g: "\<exists>movements. fallback_movements exact_numerics (replicate 60 (sample 0 0 0)) = Inr movements \<and>
        ''deep'' = fallback_phase (np_mean exact_numerics movements)"
    by simp
  from a b c conjunct1 [OF d] conjunct2 [OF d] m s e f g show ?thesis by (intro conjI)
qed

subsection \<open>The untrained classifier\<close>

text \<open>
  Claim C8 at a classifier that never completed \<^verbatim>\<open>fit\<close>: \<open>is_trained\<close> is false,
  \<open>predict\<close> fails with the not-trained error, but \<open>predict_realtime\<close> returns a
  prediction.
\<close>

theorem predict_realtime_untrained:
  "is_trained (constant_net False) = False \<and>
   predict (constant_net False) (replicate 60 [0, 0, 0]) = Inl NotTrained \<and>
   predict_realtime (constant_net False) (replicate 60 [0, 0, 0]) =
     Inr \<lparr>phase = ''rem'', confidence = 0.4,
          probabilities = \<lparr>awake = 0.1, light = 0.2, deep = 0.3, rem = 0.4\<rparr>\<rparr>"
proof -
  have u: "is_trained (constant_net False) = False" by (simp add: constant_net_def)
  then have "predict (constant_net False) (replicate 60 [0, 0, 0]) = Inl NotTrained"
    by (simp add: predict_untrained)
  with u show ?thesis by (simp only: predict_realtime_constant_net)
qed

subsection \<open>Only the last 60 samples matter\<close>

lemma predict_current_phase_last_60:
  "predict_current_phase env st now xs =
     (if length xs < 60 then Inl (HTTPException 400 (NeedAtLeast60 (length xs)))
      else predict_current_phase env st now (last_n 60 xs))"
proof (cases "length xs < 60")
  case True
  then show ?thesis by (simp add: predict_current_phase_def)
next
  case False
  then have l: "length (last_n 60 xs) = 60" by (simp add: last_n_def)
  have i: "last_n 60 (last_n 60 xs) = last_n 60 xs" by (simp add: last_n_def)
  show ?thesis
    using False
    by (simp add: predict_current_phase_def fallback_response_def fallback_movements_def l i
        cong: sum.case_cong bool.case_cong option.case_cong)
qed

lemma predict_realtime_last_n:
  assumes "sequence_length m \<le> length xs" "0 < sequence_length m"
  shows "predict_realtime m xs = predict_realtime m (last_n (sequence_length m) xs)"
proof -
  have l: "length (last_n (sequence_length m) xs) = sequence_length m"
    using assms by (simp add: last_n_def)
  have i: "last_n (sequence_length m) (last_n (sequence_length m) xs) = last_n (sequence_length m) xs"
    using assms by (simp add: last_n_def)
  show ?thesis
    using assms
    by (simp add: predict_realtime_def recent_sequence_def l i
        cong: sum.case_cong option.case_cong)
qed

text \<open>
  Claim C9. Two sample sequences of at least 60 samples with the same last 60 samples
  get the same answer from the endpoint, on the model path and on the fallback path
  (the state \<open>st\<close> is arbitrary); and \<open>predict_realtime\<close> gives the same result on two
  inputs of at least \<open>sequence_length\<close> rows with the same last \<open>sequence_length\<close> rows.
  The network and the scaler are functions of their input.
\<close>

theorem realtime_depends_on_last_samples:
  "(60 \<le> length xs \<and> 60 \<le> length ys \<and>
    drop (length xs - 60) xs = drop (length ys - 60) ys \<longrightarrow>
      predict_current_phase env st now xs = predict_current_phase env st now ys) \<and>
   (0 < sequence_length m \<and> sequence_length m \<le> length us \<and> sequence_length m \<le> length vs \<and>
    drop (length us - sequence_length m) us = drop (length vs - sequence_length m) vs \<longrightarrow>
      predict_realtime m us = predict_realtime m vs)"
proof (intro conjI impI)
  assume h: "60 \<le> length xs \<and> 60 \<le> length ys \<and>
    drop (length xs - 60) xs = drop (length ys - 60) ys"
  then have "last_n 60 xs = last_n 60 ys" by (simp add: last_n_def)
  moreover have "predict_current_phase env st now xs = predict_current_phase env st now (last_n 60 xs)"
    using h by (subst predict_current_phase_last_60) simp
  moreover have "predict_current_phase env st now ys = predict_current_phase env st now (last_n 60 ys)"
    using h by (subst predict_current_phase_last_60) simp
  ultimately show "predict_current_phase env st now xs = predict_current_phase env st now ys" by simp
next
  assume h: "0 < sequence_length m \<and> sequence_length m \<le> length us \<and>
    sequence_length m \<le> length vs \<and>
    drop (length us - sequence_length m) us = drop (length vs - sequence_length m) vs"
  then have "last_n (sequence_length m) us = last_n (sequence_length m) vs"
    by (simp add: last_n_def)
  moreover have "predict_realtime m us = predict_realtime m (last_n (sequence_length m) us)"
    using h by (simp add: predict_realtime_last_n)
  moreover have "predict_realtime m vs = predict_realtime m (last_n (sequence_length m) vs)"
    using h by (simp add: predict_realtime_last_n)
  ultimately show "predict_realtime m us = predict_realtime m vs" by simp
qed

theorem realtime_depends_on_last_samples_witness:
  "60 \<le> length (sample 1 2 3 # replicate 60 (sample 0 0 0)) \<and>
   60 \<le> length (sample 5 5 5 # sample 4 4 4 # replicate 60 (sample 0 0 0)) \<and>
   drop (length (sample 1 2 3 # replicate 60 (sample 0 0 0)) - 60)
        (sample 1 2 3 # replicate 60 (sample 0 0 0)) =
   drop (length (sample 5 5 5 # sample 4 4 4 # replicate 60 (sample 0 0 0)) - 60)
        (sample 5 5 5 # sample 4 4 4 # replicate 60 (sample 0 0 0)) \<and>
   predict_current_phase exact_numerics (with_model (constant_net True)) 0
     (sample 1 2 3 # replicate 60 (sample 0 0 0)) =
   predict_current_phase exact_numerics (with_model (constant_net True)) 0
     (sample 5 5 5 # sample 4 4 4 # replicate 60 (sample 0 0 0)) \<and>
   0 < sequence_length (constant_net True) \<and>
   sequence_length (constant_net True) \<le> length ([1, 1, 1] # replicate 60 [0, 0, 0::real]) \<and>
   sequence_length (constant_net True) \<le> length (replicate 60 [0, 0, 0::real]) \<and>
   predict_realtime (constant_net True) ([1, 1, 1] # replicate 60 [0, 0, 0]) =
   predict_realtime (constant_net True) (replicate 60 [0, 0, 0])"
proof -
  have sl: "sequence_length (constant_net True) = 60" by (simp add: constant_net_def)
  have d1: "drop (length (sample 1 2 3 # replicate 60 (sample 0 0 0)) - 60)
        (sample 1 2 3 # replicate 60 (sample 0 0 0)) = replicate 60 (sample 0 0 0)"
    by simp
  have d2: "drop (length (sample 5 5 5 # sample 4 4 4 # replicate 60 (sample 0 0 0)) - 60)
        (sample 5 5 5 # sample 4 4 4 # replicate 60 (sample 0 0 0)) = replicate 60 (sample 0 0 0)"
    by simp
  have d3: "drop (length ([1, 1, 1] # replicate 60 [0, 0, 0::real]) - 60)
        ([1, 1, 1] # replicate 60 [0, 0, 0::real]) = replicate 60 [0, 0, 0]"
    by simp
  have d4: "drop (length (replicate 60 [0, 0, 0::real]) - 60) (replicate 60 [0, 0, 0::real])
        = replicate 60 [0, 0, 0]"
    by simp
  from realtime_depends_on_last_samples
    [of "sample 1 2 3 # replicate 60 (sample 0 0 0)"
        "sample 5 5 5 # sample 4 4 4 # replicate 60 (sample 0 0 0)"
        exact_numerics "with_model (constant_net True)" 0 "constant_net True"
        "[1, 1, 1] # replicate 60 [0, 0, 0]" "replicate 60 [0, 0, 0]"]
  show ?thesis unfolding sl d1 d2 d3 d4 by simp
qed

subsection \<open>The full-session fallback classifier: windows and timestamps\<close>

lemma windows_left:
  "i < n \<Longrightarrow> (n - i + 29) div 30 = Suc ((n - (i + 30) + 29) div (30::nat))"
proof (cases "i + 30 \<le> n")
  case True
  then have "n - i + 29 = (n - (i + 30) + 29) + 30" by simp
  then show ?thesis by (simp only: div_add_self2) 
next
  case False
  assume "i < n"
  with False have "n - (i + 30) = 0" "30 \<le> n - i + 29" "n - i + 29 < 60" by simp_all
  then show ?thesis by simp
qed

lemma one_of_four:
  "(if a then x else if b then y else if c then z else w) \<in> {x, z, y, w}"
  by simp

lemma classify_window_phase:
  "classify_window env w \<in> {''awake'', ''light'', ''deep'', ''rem''}"
  unfolding classify_window_def Let_def AWAKE_def LIGHT_def DEEP_def REM_def
  by (rule one_of_four)


lemma classify_loop_eq:
  "classify_loop env movements i =
     map (\<lambda>k. window_entry env movements (i + k * 30)) [0..<(length movements - i + 29) div 30]"
proof (induction env movements i rule: classify_loop.induct)
  case (1 env movements i)
  show ?case
  proof (cases "i < length movements")
    case False
    then have "length movements - i + 29 = 29" by simp
    then have "(length movements - i + 29) div 30 = 0" by simp
    moreover have "classify_loop env movements i = []"
      using False by (subst classify_loop.simps) simp
    ultimately show ?thesis by simp
  next
    case True
    then have ne: "length (slice movements i 30) \<noteq> 0" by (simp add: slice_def)
    have IH: "classify_loop env movements (i + 30) =
        map (\<lambda>k. window_entry env movements (i + 30 + k * 30)) [0..<(length movements - (i + 30) + 29) div 30]"
      using True ne by (rule "1.IH"(2) [OF _ refl])
    have "classify_loop env movements i = window_entry env movements i # classify_loop env movements (i + 30)"
      using True ne by (subst classify_loop.simps) (simp add: window_entry_def Let_def)
    also have "\<dots> = map (\<lambda>k. window_entry env movements (i + k * 30))
                      [0..<Suc ((length movements - (i + 30) + 29) div 30)]"
      unfolding IH
      by (simp add: upt_conv_Cons map_Suc_upt [symmetric] add.assoc del: upt_Suc)
    finally show ?thesis unfolding windows_left [OF True] .
  qed
qed


lemma classify_sleep_phases_eq:
  "classify_sleep_phases env movements =
     map (\<lambda>k. window_entry env movements (k * 30)) [0..<(length movements + 29) div 30]"
  unfolding classify_sleep_phases_def classify_loop_eq by simp

lemma last_window_start:
  assumes "k < (n + 29) div (30::nat)"
  shows "k * 30 < n"
proof -
  from assms have "Suc k \<le> (n + 29) div 30" by simp
  then have "Suc k * 30 \<le> ((n + 29) div 30) * 30" by (simp only: mult_le_mono1)
  also have "\<dots> \<le> n + 29" by simp
  finally show ?thesis by simp
qed

text \<open>
  Claim C10. \<open>classify_sleep_phases\<close> on \<open>N\<close> magnitudes returns \<open>ceil(N / 30)\<close> entries;
  entry \<open>k\<close> has timestamp \<open>k * 30\<close> (so the timestamps increase strictly) and is
  computed from the non-empty slice of the \<open>min 30 (N - k * 30)\<close> magnitudes from index
  \<open>k * 30\<close> on, so the last slice is classified also when it has fewer than 30 samples;
  every phase is one of \<open>awake\<close>, \<open>light\<close>, \<open>deep\<close>, \<open>rem\<close>.
\<close>

theorem classify_sleep_phases_windows:
  "length (classify_sleep_phases env movements) = (length movements + 29) div 30 \<and>
   map timestamp (classify_sleep_phases env movements) =
     map (\<lambda>k. k * 30) [0..<(length movements + 29) div 30] \<and>
   sorted_wrt (<) (map timestamp (classify_sleep_phases env movements)) \<and>
   (\<forall>k<length (classify_sleep_phases env movements).
      slice movements (k * 30) 30 \<noteq> [] \<and>
      length (slice movements (k * 30) 30) = min 30 (length movements - k * 30) \<and>
      classify_sleep_phases env movements ! k =
        \<lparr>phase = classify_window env (slice movements (k * 30) 30), timestamp = k * 30,
         movement = np_mean env (slice movements (k * 30) 30),
         movement_std = np_std env (slice movements (k * 30) 30)\<rparr>) \<and>
   (\<forall>p\<in>set (classify_sleep_phases env movements).
      phase p \<in> {''awake'', ''light'', ''deep'', ''rem''})"
proof (intro conjI allI impI ballI)
  let ?c = "(length movements + 29) div 30"
  show len: "length (classify_sleep_phases env movements) = ?c"
    by (simp add: classify_sleep_phases_eq)
  show ts: "map timestamp (classify_sleep_phases env movements) = map (\<lambda>k. k * 30) [0..<?c]"
    by (simp add: classify_sleep_phases_eq window_entry_def comp_def del: upt_Suc)
  show "sorted_wrt (<) (map timestamp (classify_sleep_phases env movements))"
    unfolding ts by (simp add: sorted_wrt_iff_nth_less del: upt_Suc)
  fix k assume "k < length (classify_sleep_phases env movements)"
  then have kc: "k < ?c" by (simp only: len)
  then have start: "k * 30 < length movements" by (rule last_window_start)
  then show "slice movements (k * 30) 30 \<noteq> []" by (simp add: slice_def)
  show "length (slice movements (k * 30) 30) = min 30 (length movements - k * 30)"
    by (simp add: slice_def min.commute)
  show "classify_sleep_phases env movements ! k =
        \<lparr>phase = classify_window env (slice movements (k * 30) 30), timestamp = k * 30,
         movement = np_mean env (slice movements (k * 30) 30),
         movement_std = np_std env (slice movements (k * 30) 30)\<rparr>"
    using kc by (simp add: classify_sleep_phases_eq window_entry_def del: upt_Suc)
next
  fix p assume "p \<in> set (classify_sleep_phases env movements)"
  then obtain k where "p = window_entry env movements (k * 30)"
    by (auto simp: classify_sleep_phases_eq simp del: upt_Suc)
  then have "phase p = classify_window env (slice movements (k * 30) 30)" by (simp add: window_entry_def)
  then show "phase p \<in> {''awake'', ''light'', ''deep'', ''rem''}"
    by (simp only: classify_window_phase)
qed

theorem classify_sleep_phases_windows_witness:
  "length (classify_sleep_phases exact_numerics (replicate 31 0)) = 2 \<and>
   map timestamp (classify_sleep_phases exact_numerics (replicate 31 0)) = [0, 30] \<and>
   1 < length (classify_sleep_phases exact_numerics (replicate 31 0)) \<and>
   length (slice (replicate 31 (0::real)) (1 * 30) 30) = 1 \<and>
   timestamp (classify_sleep_phases exact_numerics (replicate 31 0) ! 1) = 30 \<and>
   classify_sleep_phases exact_numerics (replicate 31 0) ! 1 \<in> set (classify_sleep_phases exact_numerics (replicate 31 0)) \<and>
   phase (classify_sleep_phases exact_numerics (replicate 31 0) ! 1) \<in> {''awake'', ''light'', ''deep'', ''rem''}"
proof -
  let ?r = "classify_sleep_phases exact_numerics (replicate 31 0)"
  note inst = classify_sleep_phases_windows [of exact_numerics "replicate 31 0"]
  from inst have len: "length ?r = 2" by simp
  from inst have "map timestamp ?r = map (\<lambda>k. k * 30) [0..<(length (replicate 31 (0::real)) + 29) div 30]"
    by blast
  then have ts: "map timestamp ?r = [0, 30]" by (simp add: upt_conv_Cons)
  have one: "1 < length ?r" using len by simp
  from inst one have k1: "length (slice (replicate 31 (0::real)) (1 * 30) 30)
        = min 30 (length (replicate 31 (0::real)) - 1 * 30)"
    and e1: "?r ! 1 = \<lparr>phase = classify_window exact_numerics (slice (replicate 31 0) (1 * 30) 30),
         timestamp = 1 * 30,
         movement = np_mean exact_numerics (slice (replicate 31 0) (1 * 30) 30),
         movement_std = np_std exact_numerics (slice (replicate 31 0) (1 * 30) 30)\<rparr>"
    by blast+
  from k1 have l1: "length (slice (replicate 31 (0::real)) (1 * 30) 30) = 1" by simp
  from e1 have t1: "timestamp (?r ! 1) = 30" by simp
  have mem: "?r ! 1 \<in> set ?r" using one by (rule nth_mem)
  with inst have ph: "phase (?r ! 1) \<in> {''awake'', ''light'', ''deep'', ''rem''}" by blast
  from len ts one l1 t1 mem ph show ?thesis by blast
qed

end
